theory Spec2Isabelle
  imports Complex_Main
begin

section \<open>The byte link, the clock and the device object\<close>

text \<open>
  Python \<open>bytes\<close> and ASCII \<open>str\<close> values are both character lists. The codes and
  commands of the driver are ASCII literals, so \<open>encode('ascii')\<close> is the identity on
  them. Python floats are modelled as exact rationals: there is no rounding error, no
  infinity and no NaN in this model.
\<close>

type_synonym bytes = string

text \<open>
  The values the accessors take and give: \<open>PyFlags\<close> is a tuple of booleans and
  \<open>PyNames\<close> a tuple of strings.
\<close>

datatype pyval =
    PyNone
  | PyInt int
  | PyFloat rat
  | PyStr string
  | PyFlags "bool list"
  | PyNames "string list"

datatype error =
    IndexError
  | AttributeError string
  | TypeError string
  | RangeError string rat string
  | RuntimeError string bytes
  | ValueError string bytes bytes
  | ParseError bytes
  | UnicodeDecodeError
  | Unmodelled bytes

text \<open>
  One entry of \<open>SerialDevice._log\<close>: the dictionary with the keys \<open>kind\<close>, \<open>time\<close>
  and \<open>content\<close>. The content of a read entry is \<open>None\<close> after a timeout.
\<close>

record log_entry =
  kind :: string
  time :: rat
  content :: "bytes option"

datatype printed =
    Line string
  | DumpLog "log_entry list"

text \<open>
  The state a call runs in. The first six fields are the world outside the object:
  the value of \<open>time()\<close>, the serial link (open flag, the timestamped lines written to
  it, and the script of what \<open>readline\<close> will answer: how long each call takes and the
  line or \<open>None\<close> it yields), the arguments of the \<open>sleep\<close> calls so far and what was
  printed. The others are the attributes of the device object. \<open>log_file\<close> holds the
  entries written to the file-like sink, when there is one.
\<close>

record world =
  clock :: rat
  is_open :: bool
  wire :: "(rat \<times> bytes) list"
  incoming :: "(rat \<times> bytes option) list"
  slept :: "rat list"
  console :: "printed list"
  comm_log :: "log_entry list"
  max_log_length :: int
  log_file :: "log_entry list option"
  timeout :: "rat option"
  auto_save :: bool
  last_query_time_s :: rat
  min_query_interval_s :: rat

text \<open>
  What a call does: it returns a value, raises an exception, or never returns (the link
  blocks for ever). The state it leaves is kept in the first two cases, since an
  exception does not undo the writes, log entries and prints made before it.
\<close>

datatype 'a outcome =
    Return 'a world
  | Raise error world
  | Hang

text \<open>
  Sequencing: the next step runs in the state the first one returned, and an exception
  or a hang ends the call. \<open>or_raise\<close> does the same for a built-in that returns or
  raises without touching the state.
\<close>

definition then_do :: "'a outcome \<Rightarrow> ('a \<Rightarrow> world \<Rightarrow> 'b outcome) \<Rightarrow> 'b outcome" where
  "then_do m f = (case m of Return x w \<Rightarrow> f x w | Raise e w \<Rightarrow> Raise e w | Hang \<Rightarrow> Hang)"

definition or_raise :: "error + 'a \<Rightarrow> ('a \<Rightarrow> world \<Rightarrow> 'b outcome) \<Rightarrow> world \<Rightarrow> 'b outcome" where
  "or_raise r f w = (case r of Inl e \<Rightarrow> Raise e w | Inr x \<Rightarrow> f x w)"

definition nl :: string where
  "nl = [CHR 0x0A]"

definition sleep :: "rat \<Rightarrow> world \<Rightarrow> world" where
  "sleep d w = w\<lparr>clock := clock w + d, slept := slept w @ [d]\<rparr>"

section \<open>serial\_device.py\<close>

text \<open>
  \<open>SerialDevice._logger\<close>. \<open>log.pop(0)\<close> raises IndexError on an empty list, which
  happens when \<open>max_log_length\<close> is negative.
\<close>

definition logger :: "string \<Rightarrow> bytes option \<Rightarrow> world \<Rightarrow> unit outcome" where
  "logger k message w =
     (if int (length (comm_log w)) > max_log_length w \<and> comm_log w = [] then Raise IndexError w
      else
        let lg = (if int (length (comm_log w)) > max_log_length w then tl (comm_log w)
                  else comm_log w);
            entry = \<lparr>kind = k, time = clock w, content = message\<rparr>;
            lf = (case log_file w of None \<Rightarrow> None | Some f \<Rightarrow> Some (f @ [entry]))
        in Return () (w\<lparr>comm_log := lg @ [entry], log_file := lf\<rparr>))"

definition open_link :: "world \<Rightarrow> world" where
  "open_link w = w\<lparr>is_open := True\<rparr>"

text \<open>
  \<open>SerialDevice.write\<close> with the default line ending; \<open>MTD415TDevice.write\<close> encodes
  its argument (the identity here) and calls it.
\<close>

definition SerialDevice_write :: "bytes \<Rightarrow> world \<Rightarrow> unit outcome" where
  "SerialDevice_write data w =
     (let w1 = (if \<not> is_open w then open_link w else w);
          string = data @ nl
      in case logger ''write'' (Some string) w1 of
           Return u w2 \<Rightarrow> Return () (w2\<lparr>wire := wire w2 @ [(clock w2, string)]\<rparr>)
         | Raise e w2 \<Rightarrow> Raise e w2
         | Hang \<Rightarrow> Hang)"

text \<open>
  The loop of \<open>SerialDevice.read\<close>: each turn takes the next answer of the link's
  \<open>readline\<close> and the time it took. When the script is used up the link blocks and the
  loop never ends.
\<close>

fun read_loop ::
  "rat \<Rightarrow> rat option \<Rightarrow> rat \<Rightarrow> (rat \<times> bytes option) list
     \<Rightarrow> (bytes option \<times> rat \<times> (rat \<times> bytes option) list) option" where
  "read_loop start tmo clk [] = None"
| "read_loop start tmo clk ((d, r) # es) =
     (if tmo \<noteq> None \<and> clk + d - start > the tmo then Some (None, clk + d, es)
      else case r of
             None \<Rightarrow> read_loop start tmo (clk + d) es
           | Some b \<Rightarrow> Some (Some b, clk + d, es))"

definition SerialDevice_read :: "world \<Rightarrow> bytes option outcome" where
  "SerialDevice_read w =
     (let w1 = (if \<not> is_open w then open_link w else w)
      in case read_loop (clock w1) (timeout w1) (clock w1) (incoming w1) of
           None \<Rightarrow> Hang
         | Some (result, clk, rest) \<Rightarrow>
             (case logger ''read'' result (w1\<lparr>clock := clk, incoming := rest\<rparr>) of
                Return u w2 \<Rightarrow> Return result w2
              | Raise e w2 \<Rightarrow> Raise e w2
              | Hang \<Rightarrow> Hang))"

definition SerialDevice_query :: "bytes \<Rightarrow> world \<Rightarrow> bytes option outcome" where
  "SerialDevice_query cmd w =
     (case SerialDevice_write cmd w of
        Return u w1 \<Rightarrow> SerialDevice_read w1
      | Raise e w1 \<Rightarrow> Raise e w1
      | Hang \<Rightarrow> Hang)"

definition print_dump_log :: "world \<Rightarrow> world" where
  "print_dump_log w =
     w\<lparr>console := console w @
          [Line ''------- MTD415 COMMUNICATION LOG DUMP ---------'',
           DumpLog (comm_log w),
           Line ''--------- COMMUNICATION LOG DUMP END ----------'']\<rparr>"

section \<open>Python built-ins used by the driver\<close>

text \<open>\<open>bytes.strip()\<close> removes ASCII whitespace at both ends.\<close>

definition is_space :: "char \<Rightarrow> bool" where
  "is_space c = (c \<in> set [CHR '' '', CHR 0x09, CHR 0x0A, CHR 0x0B, CHR 0x0C, CHR 0x0D])"

definition strip :: "bytes \<Rightarrow> bytes" where
  "strip s = rev (dropWhile is_space (rev (dropWhile is_space s)))"

definition digit_char :: "nat \<Rightarrow> char" where
  "digit_char d = ''0123456789'' ! d"

text \<open>Decimal and binary digits of a natural number, least significant first.\<close>

fun dec_rev :: "nat \<Rightarrow> string" where
  "dec_rev n = (if n < 10 then [digit_char n] else digit_char (n mod 10) # dec_rev (n div 10))"

fun bin_rev :: "nat \<Rightarrow> string" where
  "bin_rev n = (if n < 2 then [digit_char n] else digit_char (n mod 2) # bin_rev (n div 2))"

declare dec_rev.simps [simp del] bin_rev.simps [simp del]

text \<open>\<open>'{:d}'.format(n)\<close>.\<close>

definition format_d :: "int \<Rightarrow> string" where
  "format_d n = (if n < 0 then CHR ''-'' # rev (dec_rev (nat (- n))) else rev (dec_rev (nat n)))"

text \<open>
  \<open>'{:016b}'.format(n)\<close>: binary digits, padded with zeros after the sign to a width of
  16 characters; longer numbers are not cut.
\<close>

definition zero_pad :: "nat \<Rightarrow> string \<Rightarrow> string" where
  "zero_pad width s = replicate (width - length s) (CHR ''0'') @ s"

definition format_016b :: "int \<Rightarrow> string" where
  "format_016b n =
     (if n < 0 then CHR ''-'' # zero_pad 15 (rev (bin_rev (nat (- n))))
      else zero_pad 16 (rev (bin_rev (nat n))))"

text \<open>
  \<open>int(x)\<close> and \<open>float(x)\<close> on a line of text. The driver reads decimal integers, so
  the model decides two cases and leaves the rest open: a line that is a decimal integer
  literal between optional whitespace has its value; a line with a letter that no Python
  number contains raises ValueError (\<open>ParseError\<close> here); on any other line (a fraction,
  an exponent, \<open>inf\<close>, digits grouped by underscores) the model says \<open>Unmodelled\<close>.
\<close>

definition is_digit :: "char \<Rightarrow> bool" where
  "is_digit c = (c \<in> set ''0123456789'')"

definition digit_val :: "char \<Rightarrow> nat" where
  "digit_val c = of_char c - 48"

definition nat_of_digits :: "string \<Rightarrow> nat" where
  "nat_of_digits s = foldl (\<lambda>a c. 10 * a + digit_val c) 0 s"

definition int_literal :: "string \<Rightarrow> int option" where
  "int_literal s =
     (case s of
        [] \<Rightarrow> None
      | c # cs \<Rightarrow>
          if c = CHR ''-'' then
            (if cs \<noteq> [] \<and> list_all is_digit cs then Some (- int (nat_of_digits cs)) else None)
          else if c = CHR ''+'' then
            (if cs \<noteq> [] \<and> list_all is_digit cs then Some (int (nat_of_digits cs)) else None)
          else if list_all is_digit s then Some (int (nat_of_digits s))
          else None)"

definition is_alpha :: "char \<Rightarrow> bool" where
  "is_alpha c =
     (c \<in> set ''abcdefghijklmnopqrstuvwxyzABCDEFGHIJKLMNOPQRSTUVWXYZ'')"

definition parse_number :: "string \<Rightarrow> bytes \<Rightarrow> error + int" where
  "parse_number letters s =
     (case int_literal (strip s) of
        Some n \<Rightarrow> Inr n
      | None \<Rightarrow>
          if list_ex (\<lambda>c. is_alpha c \<and> c \<notin> set letters) s then Inl (ParseError s)
          else Inl (Unmodelled s))"

definition py_int_text :: "bytes \<Rightarrow> error + int" where
  "py_int_text s = parse_number [] s"

definition py_float_text :: "bytes \<Rightarrow> error + rat" where
  "py_float_text s =
     (case parse_number ''eEinfatyINFATY'' s of Inl e \<Rightarrow> Inl e | Inr n \<Rightarrow> Inr (of_int n))"

text \<open>\<open>val.decode('ascii')\<close> raises on a byte above 127.\<close>

definition decode_ascii :: "bytes \<Rightarrow> error + string" where
  "decode_ascii s = (if list_ex (\<lambda>c. (of_char c :: nat) \<ge> 128) s then Inl UnicodeDecodeError else Inr s)"

text \<open>\<open>int(x)\<close> on a float cuts towards zero.\<close>

definition trunc :: "rat \<Rightarrow> int" where
  "trunc x = (if x \<ge> 0 then \<lfloor>x\<rfloor> else \<lceil>x\<rceil>)"

fun py_int :: "pyval \<Rightarrow> error + int" where
  "py_int (PyInt n) = Inr n"
| "py_int (PyFloat x) = Inr (trunc x)"
| "py_int (PyStr s) = py_int_text s"
| "py_int v = Inl (TypeError ''int'')"

text \<open>\<open>round(x)\<close> with one argument: the nearest integer, a tie going to the even one.\<close>

definition py_round :: "rat \<Rightarrow> int" where
  "py_round x =
     (let f = \<lfloor>x\<rfloor>; d = x - of_int f
      in if d < 1 / 2 then f else if d > 1 / 2 then f + 1 else if even f then f else f + 1)"

section \<open>mtd415t\_device.py\<close>

text \<open>
  \<open>MTD415TDevice.__init__\<close> followed by \<open>SerialDevice.__init__\<close>, at time \<open>now\<close> and
  on a link that will answer \<open>script\<close>. \<open>timeout\<close> and \<open>max_log_length\<close> are the
  keyword arguments passed on to the base class.
\<close>

definition MTD415TDevice_init ::
  "rat \<Rightarrow> (rat \<times> bytes option) list \<Rightarrow> bool \<Rightarrow> log_entry list option \<Rightarrow> rat \<Rightarrow> rat option
     \<Rightarrow> int \<Rightarrow> world" where
  "MTD415TDevice_init now script auto_save_arg communication_log minimal_query_interval_s
       timeout_arg max_log_length_arg =
     \<lparr>clock = now, is_open = False, wire = [], incoming = script, slept = [], console = [],
      comm_log = [], max_log_length = max_log_length_arg, log_file = communication_log,
      timeout = timeout_arg, auto_save = auto_save_arg, last_query_time_s = now,
      min_query_interval_s = 1 / 100\<rparr>"

definition unknown_command :: bytes where
  "unknown_command = ''unknown command'' @ nl"

definition MTD415T_write :: "string \<Rightarrow> world \<Rightarrow> unit outcome" where
  "MTD415T_write data w = SerialDevice_write data w"

text \<open>
  \<open>MTD415TDevice.query\<close> calls itself, with \<open>retry=True\<close>, for as long as the answer
  is \<open>None\<close> or the line "unknown command". Every call of \<open>SerialDevice.query\<close> that
  returns has taken at least one answer from the link, so on a finite script the recursion
  ends; a link that goes on answering "unknown command" is a longer script. The limit
  Python puts on the depth of recursion is not part of the model.
\<close>

lemma logger_incoming:
  "logger k m w = Return u w' \<Longrightarrow> incoming w' = incoming w"
  by (auto simp: logger_def Let_def split: if_splits)

lemma write_incoming:
  "SerialDevice_write d w = Return u w' \<Longrightarrow> incoming w' = incoming w"
  by (auto simp: SerialDevice_write_def Let_def open_link_def
      split: outcome.splits if_splits dest!: logger_incoming)

lemma read_loop_shorter:
  "read_loop start tmo clk es = Some (r, clk', rest) \<Longrightarrow> length rest < length es"
  by (induction start tmo clk es rule: read_loop.induct)
     (auto split: if_splits option.splits)

lemma read_incoming:
  "SerialDevice_read w = Return r w' \<Longrightarrow> length (incoming w') < length (incoming w)"
  by (auto simp: SerialDevice_read_def Let_def open_link_def
      split: option.splits outcome.splits if_splits
      dest!: logger_incoming read_loop_shorter)

lemma query_incoming:
  "SerialDevice_query cmd w = Return r w' \<Longrightarrow> length (incoming w') < length (incoming w)"
  by (auto simp: SerialDevice_query_def split: outcome.splits
      dest!: write_incoming read_incoming)

function MTD415T_query :: "string \<Rightarrow> bool \<Rightarrow> world \<Rightarrow> bytes option outcome" where
  "MTD415T_query setting retry w =
     (let idle_time_s = min_query_interval_s w - (clock w - last_query_time_s w);
          w1 = (if idle_time_s > 0 then sleep idle_time_s w else w);
          cmd = setting @ ''?''
      in case SerialDevice_query cmd w1 of
           Hang \<Rightarrow> Hang
         | Raise e w2 \<Rightarrow> Raise e w2
         | Return result w2 \<Rightarrow>
             if retry \<and> (result = Some unknown_command \<or> result = None)
             then MTD415T_query setting True (sleep (1 / 10) (w2\<lparr>last_query_time_s := clock w2\<rparr>))
             else Return result (w2\<lparr>last_query_time_s := clock w2\<rparr>))"
  by pat_completeness auto
termination
proof (relation "measure (\<lambda>(setting, retry, w). length (incoming w))", goal_cases)
  case 1
  show ?case by simp
next
  case (2 setting retry w idle w1 cmd result w2)
  from 2(4) have "length (incoming w2) < length (incoming w1)"
    using query_incoming by metis
  with 2(2) show ?case by (simp add: sleep_def split: if_splits)
qed

declare MTD415T_query.simps [simp del]

text \<open>\<open>MTD415TDevice.save\<close>: the answer of the device is read and dropped.\<close>

definition save :: "world \<Rightarrow> pyval outcome" where
  "save w =
     then_do (MTD415T_write ''M''
                (w\<lparr>console := console w @ [Line ''WARNING: Saving config to flash memory.'']\<rparr>))
       (\<lambda>u w1. then_do (SerialDevice_read w1) (\<lambda>r w2. Return PyNone w2))"

text \<open>
  \<open>MTD415TDevice.set\<close>. \<open>self.read().strip()\<close> is an attribute access on the value
  read: on \<open>None\<close> it raises AttributeError. Whatever \<open>strip\<close> returns is a bytes value,
  so the test \<open>confirmation is None\<close> that follows is never true and its branch (dump
  the log, raise RuntimeError) is never taken.
\<close>

definition MTD415T_set :: "string \<Rightarrow> pyval \<Rightarrow> world \<Rightarrow> pyval outcome" where
  "MTD415T_set setting val w =
     or_raise (py_int val) (\<lambda>v w.
       let value_str = format_d v;
           cmd = setting @ value_str
       in then_do (MTD415T_write cmd w) (\<lambda>u w1.
            then_do (SerialDevice_read w1) (\<lambda>r w2.
              case r of
                None \<Rightarrow> Raise (AttributeError ''strip'') w2
              | Some line \<Rightarrow>
                  (let confirmation = strip line
                   in if confirmation \<noteq> value_str
                      then Raise (ValueError setting value_str confirmation) (print_dump_log w2)
                      else if auto_save w2
                      then save (w2\<lparr>console := console w2 @
                             [Line ''WARNING: Using auto-save mode! This warning persists.'']\<rparr>)
                      else Return PyNone w2)))) w"

text \<open>\<open>MTD415TDevice.clear_errors\<close>.\<close>

definition clear_errors :: "world \<Rightarrow> pyval outcome" where
  "clear_errors w =
     then_do (MTD415T_write ''c'' w)
       (\<lambda>u w1. then_do (SerialDevice_read w1) (\<lambda>r w2. Return PyNone w2))"

subsection \<open>The helpers of helpers.py\<close>

text \<open>
  Modelled from the spec: \<open>helpers.py\<close>, with \<open>validate_is_float_or_int\<close> and
  \<open>validate_is_in_range\<close>, is not among the sources. The spec (4.4, Set) says: validate
  that the input is numeric (integer or floating point) and reject it otherwise with a
  type error naming the setting; validate that it falls within the inclusive range and
  reject it otherwise with a range error that names the setting, the bound and the unit
  label.
\<close>

fun validate_is_float_or_int :: "pyval \<Rightarrow> string \<Rightarrow> error + unit" where
  "validate_is_float_or_int (PyInt n) name = Inr ()"
| "validate_is_float_or_int (PyFloat x) name = Inr ()"
| "validate_is_float_or_int v name = Inl (TypeError name)"

fun number :: "pyval \<Rightarrow> rat option" where
  "number (PyInt n) = Some (of_int n)"
| "number (PyFloat x) = Some x"
| "number v = None"

definition validate_is_in_range :: "pyval \<Rightarrow> rat \<Rightarrow> rat \<Rightarrow> string \<Rightarrow> string \<Rightarrow> error + unit" where
  "validate_is_in_range val lo hi name unit_label =
     (case number val of
        None \<Rightarrow> Inl (TypeError name)
      | Some x \<Rightarrow>
          if x < lo then Inl (RangeError name lo unit_label)
          else if x > hi then Inl (RangeError name hi unit_label)
          else Inr ())"

subsection \<open>Accessors\<close>

text \<open>
  The three lines that end twelve of the getters:
  \<^verbatim>\<open>if value is None: return "<timeout>"\<close>, then \<^verbatim>\<open>return float(value) / 1e3\<close>.
\<close>

definition milli :: "bytes option \<Rightarrow> world \<Rightarrow> pyval outcome" where
  "milli val w =
     (case val of
        None \<Rightarrow> Return (PyStr ''<timeout>'') w
      | Some b \<Rightarrow> or_raise (py_float_text b) (\<lambda>x. Return (PyFloat (x / 1000))) w)"

text \<open>The end of \<open>idn\<close> and \<open>uid\<close>.\<close>

definition decoded :: "bytes option \<Rightarrow> world \<Rightarrow> pyval outcome" where
  "decoded res w =
     (case res of
        None \<Rightarrow> Return (PyStr ''<timeout>'') w
      | Some b \<Rightarrow> or_raise (decode_ascii b) (\<lambda>s. Return (PyStr s)) w)"

definition idn :: "world \<Rightarrow> pyval outcome" where
  "idn w = then_do (MTD415T_query ''m'' True w) decoded"

definition uid :: "world \<Rightarrow> pyval outcome" where
  "uid w = then_do (MTD415T_query ''u'' True w) decoded"

definition error_flags :: "world \<Rightarrow> pyval outcome" where
  "error_flags w =
     then_do (MTD415T_query ''E'' True w) (\<lambda>val w1.
       case val of
         None \<Rightarrow> Return (PyStr ''<timeout>'') w1
       | Some b \<Rightarrow>
           or_raise (decode_ascii b) (\<lambda>s.
             or_raise (py_int_text s) (\<lambda>err.
               Return (PyFlags (map (\<lambda>c. c = CHR ''1'') (rev (format_016b err)))))) w1)"

text \<open>\<open>_ERRORS\<close>, in the order the dictionary is written, which is its iteration order.\<close>

definition ERRORS :: "(nat \<times> string) list" where
  "ERRORS =
     [(0, ''not enabled''),
      (1, ''internal temperature too high''),
      (2, ''thermal latch-up''),
      (3, ''cycling time too small''),
      (4, ''no sensor''),
      (5, ''no tec''),
      (6, ''tec polarity reversed''),
      (13, ''value out of range''),
      (14, ''invalid command'')]"

text \<open>The loop of \<open>errors\<close>; \<open>flags[idx]\<close> raises IndexError past the end of the tuple.\<close>

fun named :: "(nat \<times> string) list \<Rightarrow> bool list \<Rightarrow> string list \<Rightarrow> error + string list" where
  "named [] flags errors = Inr errors"
| "named ((idx, err) # items) flags errors =
     (if idx \<ge> length flags then Inl IndexError
      else if flags ! idx = False then named items flags errors
      else named items flags (errors @ [err]))"

definition errors :: "world \<Rightarrow> pyval outcome" where
  "errors w =
     then_do (error_flags w) (\<lambda>flags w1.
       case flags of
         PyStr s \<Rightarrow> Return (PyStr s) w1
       | PyFlags fs \<Rightarrow> or_raise (named ERRORS fs []) (\<lambda>es. Return (PyNames es)) w1
       | _ \<Rightarrow> Raise (TypeError ''flags'') w1)"

text \<open>\<open>value * 1e3\<close>.\<close>

definition times_1e3 :: "pyval \<Rightarrow> error + rat" where
  "times_1e3 val = (case number val of None \<Rightarrow> Inl (TypeError ''*'') | Some x \<Rightarrow> Inr (x * 1000))"

definition tec_current_limit :: "world \<Rightarrow> pyval outcome" where
  "tec_current_limit w = then_do (MTD415T_query ''L'' True w) milli"

definition set_tec_current_limit :: "pyval \<Rightarrow> world \<Rightarrow> pyval outcome" where
  "set_tec_current_limit val w =
     or_raise (validate_is_float_or_int val ''TEC current limit'') (\<lambda>u.
       or_raise (validate_is_in_range val (1 / 5) 2 ''TEC current limit'' '' A'') (\<lambda>u.
         or_raise (times_1e3 val) (\<lambda>y. MTD415T_set ''L'' (PyInt (py_round y))))) w"

definition tec_current :: "world \<Rightarrow> pyval outcome" where
  "tec_current w = then_do (MTD415T_query ''A'' True w) milli"

definition tec_voltage :: "world \<Rightarrow> pyval outcome" where
  "tec_voltage w = then_do (MTD415T_query ''U'' False w) milli"

definition temp :: "world \<Rightarrow> pyval outcome" where
  "temp w = then_do (MTD415T_query ''Te'' True w) milli"

definition temp_setpoint :: "world \<Rightarrow> pyval outcome" where
  "temp_setpoint w = then_do (MTD415T_query ''T'' True w) milli"

definition set_temp_setpoint :: "pyval \<Rightarrow> world \<Rightarrow> pyval outcome" where
  "set_temp_setpoint val w =
     or_raise (validate_is_float_or_int val ''Temperature setpoint'') (\<lambda>u.
       or_raise (validate_is_in_range val 5 45 ''Temperature setpoint'' '' C'') (\<lambda>u.
         or_raise (times_1e3 val) (\<lambda>y. MTD415T_set ''T'' (PyInt (py_round y))))) w"

definition status_temp_window :: "world \<Rightarrow> pyval outcome" where
  "status_temp_window w = then_do (MTD415T_query ''W'' True w) milli"

definition set_status_temp_window :: "pyval \<Rightarrow> world \<Rightarrow> pyval outcome" where
  "set_status_temp_window val w =
     or_raise (validate_is_float_or_int val ''Status temperature window'') (\<lambda>u.
       or_raise (validate_is_in_range val (1 / 1000) (32768 / 1000)
                   ''Status temperature window'' '' C'') (\<lambda>u.
         or_raise (times_1e3 val) (\<lambda>y. MTD415T_set ''W'' (PyInt (py_round y))))) w"

definition status_delay :: "world \<Rightarrow> pyval outcome" where
  "status_delay w =
     then_do (MTD415T_query ''d'' True w) (\<lambda>val w1.
       case val of
         None \<Rightarrow> Return (PyStr ''<timeout>'') w1
       | Some b \<Rightarrow> or_raise (py_int_text b) (\<lambda>n. Return (PyInt n)) w1)"

definition set_status_delay :: "pyval \<Rightarrow> world \<Rightarrow> pyval outcome" where
  "set_status_delay val w =
     or_raise (validate_is_float_or_int val ''Status delay'') (\<lambda>u.
       or_raise (py_int val) (\<lambda>n.
         or_raise (validate_is_in_range (PyInt n) 1 32768 ''Status delay'' '' s'') (\<lambda>u.
           MTD415T_set ''d'' (PyInt n)))) w"

definition critical_gain :: "world \<Rightarrow> pyval outcome" where
  "critical_gain w = then_do (MTD415T_query ''G'' True w) milli"

definition set_critical_gain :: "pyval \<Rightarrow> world \<Rightarrow> pyval outcome" where
  "set_critical_gain val w =
     or_raise (validate_is_float_or_int val ''Critical gain'') (\<lambda>u.
       or_raise (validate_is_in_range val (10 / 1000) 100 ''Critical gain'' '' A/K'') (\<lambda>u.
         or_raise (times_1e3 val) (\<lambda>y. MTD415T_set ''G'' (PyInt (py_round y))))) w"

definition critical_period :: "world \<Rightarrow> pyval outcome" where
  "critical_period w = then_do (MTD415T_query ''O'' True w) milli"

definition set_critical_period :: "pyval \<Rightarrow> world \<Rightarrow> pyval outcome" where
  "set_critical_period val w =
     or_raise (validate_is_float_or_int val ''Critical period'') (\<lambda>u.
       or_raise (validate_is_in_range val (100 / 1000) 100000 ''Critical period'' '' s'') (\<lambda>u.
         or_raise (times_1e3 val) (\<lambda>y. MTD415T_set ''O'' (PyInt (py_round y))))) w"

definition cycling_time :: "world \<Rightarrow> pyval outcome" where
  "cycling_time w = then_do (MTD415T_query ''C'' True w) milli"

definition set_cycling_time :: "pyval \<Rightarrow> world \<Rightarrow> pyval outcome" where
  "set_cycling_time val w =
     or_raise (validate_is_float_or_int val ''Cycling time'') (\<lambda>u.
       or_raise (validate_is_in_range val (1 / 1000) 1 ''Cycling time'' '' s'') (\<lambda>u.
         or_raise (times_1e3 val) (\<lambda>y. MTD415T_set ''C'' (PyInt (py_round y))))) w"

definition p_gain :: "world \<Rightarrow> pyval outcome" where
  "p_gain w = then_do (MTD415T_query ''P'' True w) milli"

definition set_p_gain :: "pyval \<Rightarrow> world \<Rightarrow> pyval outcome" where
  "set_p_gain val w =
     or_raise (validate_is_float_or_int val ''P gain'') (\<lambda>u.
       or_raise (validate_is_in_range val 0 100 ''P gain'' '' A/K'') (\<lambda>u.
         or_raise (times_1e3 val) (\<lambda>y. MTD415T_set ''P'' (PyInt (py_round y))))) w"

definition i_gain :: "world \<Rightarrow> pyval outcome" where
  "i_gain w = then_do (MTD415T_query ''I'' True w) milli"

definition set_i_gain :: "pyval \<Rightarrow> world \<Rightarrow> pyval outcome" where
  "set_i_gain val w =
     or_raise (validate_is_float_or_int val ''I gain'') (\<lambda>u.
       or_raise (validate_is_in_range val 0 100 ''I gain'' '' A/(K x s)'') (\<lambda>u.
         or_raise (times_1e3 val) (\<lambda>y. MTD415T_set ''I'' (PyInt (py_round y))))) w"

definition d_gain :: "world \<Rightarrow> pyval outcome" where
  "d_gain w = then_do (MTD415T_query ''D'' True w) milli"

definition set_d_gain :: "pyval \<Rightarrow> world \<Rightarrow> pyval outcome" where
  "set_d_gain val w =
     or_raise (validate_is_float_or_int val ''D gain'') (\<lambda>u.
       or_raise (validate_is_in_range val 0 100 ''D gain'' '' (A x s)/K'') (\<lambda>u.
         or_raise (times_1e3 val) (\<lambda>y. MTD415T_set ''D'' (PyInt (py_round y))))) w"

text \<open>
  The properties of the class by name: reading one calls its getter, assigning to one
  calls its setter, and assigning to a property without a setter raises AttributeError.
\<close>

datatype property =
    Idn | Uid | Error_flags | Errors | Tec_current_limit | Tec_current | Tec_voltage | Temp
  | Temp_setpoint | Status_temp_window | Status_delay | Critical_gain | Critical_period
  | Cycling_time | P_gain | I_gain | D_gain

fun getattr :: "property \<Rightarrow> world \<Rightarrow> pyval outcome" where
  "getattr Idn = idn"
| "getattr Uid = uid"
| "getattr Error_flags = error_flags"
| "getattr Errors = errors"
| "getattr Tec_current_limit = tec_current_limit"
| "getattr Tec_current = tec_current"
| "getattr Tec_voltage = tec_voltage"
| "getattr Temp = temp"
| "getattr Temp_setpoint = temp_setpoint"
| "getattr Status_temp_window = status_temp_window"
| "getattr Status_delay = status_delay"
| "getattr Critical_gain = critical_gain"
| "getattr Critical_period = critical_period"
| "getattr Cycling_time = cycling_time"
| "getattr P_gain = p_gain"
| "getattr I_gain = i_gain"
| "getattr D_gain = d_gain"

fun setattr :: "property \<Rightarrow> pyval \<Rightarrow> world \<Rightarrow> pyval outcome" where
  "setattr Tec_current_limit = set_tec_current_limit"
| "setattr Temp_setpoint = set_temp_setpoint"
| "setattr Status_temp_window = set_status_temp_window"
| "setattr Status_delay = set_status_delay"
| "setattr Critical_gain = set_critical_gain"
| "setattr Critical_period = set_critical_period"
| "setattr Cycling_time = set_cycling_time"
| "setattr P_gain = set_p_gain"
| "setattr I_gain = set_i_gain"
| "setattr D_gain = set_d_gain"
| "setattr p = (\<lambda>val w. Raise (AttributeError ''can't set attribute'') w)"

section \<open>Observing a call\<close>

fun state_of :: "'a outcome \<Rightarrow> world option" where
  "state_of (Return x w) = Some w"
| "state_of (Raise e w) = Some w"
| "state_of Hang = None"

fun raised :: "'a outcome \<Rightarrow> error option" where
  "raised (Raise e w) = Some e"
| "raised r = None"

fun returned :: "'a outcome \<Rightarrow> 'a option" where
  "returned (Return x w) = Some x"
| "returned r = None"

text \<open>
  A device object just constructed at time 0 with \<open>auto_save\<close> off and no log file, on
  a link that will answer \<open>script\<close>.
\<close>

definition fresh :: "rat option \<Rightarrow> int \<Rightarrow> (rat \<times> bytes option) list \<Rightarrow> world" where
  "fresh tmo mll script = MTD415TDevice_init 0 script False None (1 / 100) tmo mll"

text \<open>A caller that writes several lines, one after the other.\<close>

fun write_all :: "bytes list \<Rightarrow> world \<Rightarrow> unit outcome" where
  "write_all [] w = Return () w"
| "write_all (d # ds) w = then_do (SerialDevice_write d w) (\<lambda>u. write_all ds)"

text \<open>
  What \<open>SerialDevice.read\<close> returns when the link's \<open>readline\<close> gives the line \<open>snd e\<close>
  after \<open>fst e\<close> seconds: the line, or \<open>None\<close> when that is longer than the timeout.
\<close>

definition answer :: "rat option \<Rightarrow> rat \<times> bytes \<Rightarrow> bytes option" where
  "answer tmo e = (if tmo \<noteq> None \<and> fst e > the tmo then None else Some (snd e))"

text \<open>The results that make \<open>MTD415TDevice.query\<close> call itself again.\<close>

definition retried :: "bytes option \<Rightarrow> bool" where
  "retried r = (r = Some unknown_command \<or> r = None)"

section \<open>Vocabulary of the proofs\<close>

text \<open>The state after a \<open>_logger\<close> call that does not raise.\<close>

definition logged :: "string \<Rightarrow> bytes option \<Rightarrow> world \<Rightarrow> world" where
  "logged k m w =
     w\<lparr>comm_log := (if int (length (comm_log w)) > max_log_length w then tl (comm_log w)
                     else comm_log w) @ [\<lparr>kind = k, time = clock w, content = m\<rparr>],
       log_file := (case log_file w of None \<Rightarrow> None
                    | Some f \<Rightarrow> Some (f @ [\<lparr>kind = k, time = clock w, content = m\<rparr>]))\<rparr>"

text \<open>
  The state after a \<open>write\<close> that does not raise, after a \<open>read\<close> that ended at time
  \<open>clk\<close> with the result \<open>r\<close> and left \<open>rest\<close> of the script, and after the throttling
  sleep at the head of \<open>MTD415TDevice.query\<close>.
\<close>

definition written :: "bytes \<Rightarrow> world \<Rightarrow> world" where
  "written d w =
     (let w2 = logged ''write'' (Some (d @ nl)) (w\<lparr>is_open := True\<rparr>)
      in w2\<lparr>wire := wire w2 @ [(clock w2, d @ nl)]\<rparr>)"

definition got :: "rat \<Rightarrow> bytes option \<Rightarrow> (rat \<times> bytes option) list \<Rightarrow> world \<Rightarrow> world" where
  "got clk r rest w = logged ''read'' r (w\<lparr>is_open := True, clock := clk, incoming := rest\<rparr>)"

definition throttled :: "world \<Rightarrow> world" where
  "throttled w =
     (if min_query_interval_s w - (clock w - last_query_time_s w) > 0
      then sleep (min_query_interval_s w - (clock w - last_query_time_s w)) w else w)"

text \<open>The wire codes of section 6 of the spec; \<open>errors\<close> reads the error register too.\<close>

fun wire_code :: "property \<Rightarrow> string" where
  "wire_code Idn = ''m''"
| "wire_code Uid = ''u''"
| "wire_code Error_flags = ''E''"
| "wire_code Errors = ''E''"
| "wire_code Tec_current_limit = ''L''"
| "wire_code Tec_current = ''A''"
| "wire_code Tec_voltage = ''U''"
| "wire_code Temp = ''Te''"
| "wire_code Temp_setpoint = ''T''"
| "wire_code Status_temp_window = ''W''"
| "wire_code Status_delay = ''d''"
| "wire_code Critical_gain = ''G''"
| "wire_code Critical_period = ''O''"
| "wire_code Cycling_time = ''C''"
| "wire_code P_gain = ''P''"
| "wire_code I_gain = ''I''"
| "wire_code D_gain = ''D''"

text \<open>The table of section 4.4 of the spec: the valid range of each setting.\<close>

fun documented_range :: "property \<Rightarrow> (rat \<times> rat) option" where
  "documented_range Temp_setpoint = Some (5, 45)"
| "documented_range Tec_current_limit = Some (200 / 1000, 2)"
| "documented_range Status_temp_window = Some (1 / 1000, 32768 / 1000)"
| "documented_range Status_delay = Some (1, 32768)"
| "documented_range Critical_gain = Some (10 / 1000, 100)"
| "documented_range Critical_period = Some (100 / 1000, 100000)"
| "documented_range Cycling_time = Some (1 / 1000, 1)"
| "documented_range P_gain = Some (0, 100)"
| "documented_range I_gain = Some (0, 100)"
| "documented_range D_gain = Some (0, 100)"
| "documented_range p = None"

text \<open>
  The number the range test of a setter sees, the integer it sends, and one scale unit:
  the status delay is cut to an integer first and sent as it is, every other setting is
  tested as given and sent in thousandths.
\<close>

definition checked :: "property \<Rightarrow> rat \<Rightarrow> rat" where
  "checked p x = (if p = Status_delay then of_int (trunc x) else x)"

definition wire_value :: "property \<Rightarrow> rat \<Rightarrow> int" where
  "wire_value p x = (if p = Status_delay then trunc x else py_round (x * 1000))"


text \<open>
  The name and the unit each setter passes to the helpers. The unit of the two
  temperature settings is written with a degree sign in the source, left out here and in
  the setters above.
\<close>

fun setting_name :: "property \<Rightarrow> string" where
  "setting_name Tec_current_limit = ''TEC current limit''"
| "setting_name Temp_setpoint = ''Temperature setpoint''"
| "setting_name Status_temp_window = ''Status temperature window''"
| "setting_name Status_delay = ''Status delay''"
| "setting_name Critical_gain = ''Critical gain''"
| "setting_name Critical_period = ''Critical period''"
| "setting_name Cycling_time = ''Cycling time''"
| "setting_name P_gain = ''P gain''"
| "setting_name I_gain = ''I gain''"
| "setting_name D_gain = ''D gain''"
| "setting_name p = []"

fun unit_label :: "property \<Rightarrow> string" where
  "unit_label Tec_current_limit = '' A''"
| "unit_label Temp_setpoint = '' C''"
| "unit_label Status_temp_window = '' C''"
| "unit_label Status_delay = '' s''"
| "unit_label Critical_gain = '' A/K''"
| "unit_label Critical_period = '' s''"
| "unit_label Cycling_time = '' s''"
| "unit_label P_gain = '' A/K''"
| "unit_label I_gain = '' A/(K x s)''"
| "unit_label D_gain = '' (A x s)/K''"
| "unit_label p = []"

text \<open>What a setter does, by the kind of value it gets.\<close>

definition setter_result :: "property \<Rightarrow> rat \<Rightarrow> rat \<Rightarrow> pyval \<Rightarrow> world \<Rightarrow> pyval outcome" where
  "setter_result p lo hi val w =
     (case number val of
        None \<Rightarrow> Raise (TypeError (setting_name p)) w
      | Some x \<Rightarrow>
          if checked p x < lo then Raise (RangeError (setting_name p) lo (unit_label p)) w
          else if checked p x > hi then Raise (RangeError (setting_name p) hi (unit_label p)) w
          else MTD415T_set (wire_code p) (PyInt (wire_value p x)) w)"

text \<open>The getters: one query, then the reading of its result.\<close>

definition flags_reading :: "bytes option \<Rightarrow> world \<Rightarrow> pyval outcome" where
  "flags_reading val w1 =
     (case val of
        None \<Rightarrow> Return (PyStr ''<timeout>'') w1
      | Some b \<Rightarrow>
          or_raise (decode_ascii b) (\<lambda>s.
            or_raise (py_int_text s) (\<lambda>err.
              Return (PyFlags (map (\<lambda>c. c = CHR ''1'') (rev (format_016b err)))))) w1)"

definition names_reading :: "pyval \<Rightarrow> world \<Rightarrow> pyval outcome" where
  "names_reading flags w1 =
     (case flags of
        PyStr s \<Rightarrow> Return (PyStr s) w1
      | PyFlags fs \<Rightarrow> or_raise (named ERRORS fs []) (\<lambda>es. Return (PyNames es)) w1
      | _ \<Rightarrow> Raise (TypeError ''flags'') w1)"

definition int_reading :: "bytes option \<Rightarrow> world \<Rightarrow> pyval outcome" where
  "int_reading val w1 =
     (case val of
        None \<Rightarrow> Return (PyStr ''<timeout>'') w1
      | Some b \<Rightarrow> or_raise (py_int_text b) (\<lambda>n. Return (PyInt n)) w1)"

fun reading :: "property \<Rightarrow> bytes option \<Rightarrow> world \<Rightarrow> pyval outcome" where
  "reading Idn = decoded"
| "reading Uid = decoded"
| "reading Error_flags = flags_reading"
| "reading Errors = (\<lambda>val w. then_do (flags_reading val w) names_reading)"
| "reading Status_delay = int_reading"
| "reading p = milli"

text \<open>Devices used as examples: two queries in a row, and a setpoint of 15.025 set and read back.\<close>

definition two_answers :: world where
  "two_answers = fresh None 100 [(1 / 1000, Some (''500'' @ nl)), (1 / 1000, Some (''20000'' @ nl))]"

definition after_first :: world where
  "after_first = the (state_of (MTD415T_query ''L'' True two_answers))"

definition after_second :: world where
  "after_second = the (state_of (MTD415T_query ''T'' True after_first))"



section \<open>The communication log\<close>

lemma logger_returns:
  "logger k m w = Return u w' \<Longrightarrow> w' = logged k m w"
  by (auto simp: logger_def logged_def Let_def split: if_splits)

lemma logger_logged:
  "0 \<le> max_log_length w \<Longrightarrow> logger k m w = Return () (logged k m w)"
  by (auto simp: logger_def logged_def Let_def)

lemma logged_fields [simp]:
  "clock (logged k m w) = clock w"
  "is_open (logged k m w) = is_open w"
  "wire (logged k m w) = wire w"
  "incoming (logged k m w) = incoming w"
  "slept (logged k m w) = slept w"
  "console (logged k m w) = console w"
  "max_log_length (logged k m w) = max_log_length w"
  "timeout (logged k m w) = timeout w"
  "auto_save (logged k m w) = auto_save w"
  "last_query_time_s (logged k m w) = last_query_time_s w"
  "min_query_interval_s (logged k m w) = min_query_interval_s w"
  by (simp_all add: logged_def)

text \<open>
  What the code keeps: the log never holds more than \<open>max_log_length + 1\<close> entries, and
  once it holds that many every new entry pushes out the oldest one.
\<close>

lemma logged_length:
  assumes "0 \<le> max_log_length w"
    and "int (length (comm_log w)) \<le> max_log_length w + 1"
  shows "int (length (comm_log (logged k m w))) \<le> max_log_length w + 1"
  using assms by (cases "comm_log w") (auto simp: logged_def)

lemma logged_full:
  assumes "int (length (comm_log w)) = max_log_length w + 1"
  shows "comm_log (logged k m w) = tl (comm_log w) @ [\<lparr>kind = k, time = clock w, content = m\<rparr>]"
  using assms by (simp add: logged_def)

lemma logged_at_bound:
  assumes "int (length (comm_log w)) = max_log_length w"
  shows "int (length (comm_log (logged k m w))) = max_log_length w + 1"
  using assms by (simp add: logged_def)

text \<open>
  C2. The claim: the log holds at most \<open>max_log_length\<close> entries. The code: the test
  before an append is \<open>len(log) > max_log_length\<close>, so an entry is evicted only when the
  log already holds more than the bound. With \<open>max_log_length = 2\<close>, three writes leave
  three entries in the log.
\<close>

theorem log_exceeds_max_log_length:
  "map_option (length \<circ> comm_log) (state_of (write_all [''a'', ''b'', ''c''] (fresh None 2 [])))
     = Some 3"
  by (simp add: fresh_def MTD415TDevice_init_def then_do_def SerialDevice_write_def logger_def
      open_link_def Let_def)

section \<open>Construction\<close>

text \<open>
  C6. The claim: a device constructed with another \<open>minimal_query_interval_s\<close> throttles
  with that value. The code: \<open>__init__\<close> takes the argument and stores the constant 0.01
  whatever it is, here for an argument of half a second.
\<close>

theorem init_ignores_minimal_query_interval:
  "min_query_interval_s (MTD415TDevice_init now script a lf (1 / 2) tmo mll) = 1 / 100"
  by (simp add: MTD415TDevice_init_def)

section \<open>Setting a value\<close>

text \<open>
  C3. The claim: when the confirmation read times out, \<open>set\<close> dumps the log and raises
  the error "Timeout for setting ...". The code: with a timeout of one second and a
  link whose \<open>readline\<close> comes back empty after a second and a half, \<open>read()\<close> returns
  \<open>None\<close>, \<open>.strip()\<close> on it raises AttributeError, and nothing is printed.
\<close>

theorem set_timeout_raises_AttributeError:
  "raised (MTD415T_set ''L'' (PyInt 500) (fresh (Some 1) 100 [(3 / 2, Some [])]))
     = Some (AttributeError ''strip'') \<and>
   map_option console (state_of (MTD415T_set ''L'' (PyInt 500) (fresh (Some 1) 100 [(3 / 2, Some [])])))
     = Some []"
  by code_simp

section \<open>How a call changes the state\<close>

lemma open_if: "(if \<not> is_open w then open_link w else w) = w\<lparr>is_open := True\<rparr>"
  by (cases w) (simp add: open_link_def)

lemma written_fields [simp]:
  "clock (written d w) = clock w"
  "is_open (written d w) = True"
  "wire (written d w) = wire w @ [(clock w, d @ nl)]"
  "incoming (written d w) = incoming w"
  "slept (written d w) = slept w"
  "console (written d w) = console w"
  "max_log_length (written d w) = max_log_length w"
  "timeout (written d w) = timeout w"
  "auto_save (written d w) = auto_save w"
  "last_query_time_s (written d w) = last_query_time_s w"
  "min_query_interval_s (written d w) = min_query_interval_s w"
  by (simp_all add: written_def Let_def)

lemma write_returns:
  "SerialDevice_write d w = Return u w' \<Longrightarrow> w' = written d w"
  by (auto simp: SerialDevice_write_def written_def Let_def open_if
      split: outcome.splits dest!: logger_returns)

lemma write_written:
  "0 \<le> max_log_length w \<Longrightarrow> SerialDevice_write d w = Return () (written d w)"
  by (simp add: SerialDevice_write_def written_def Let_def open_if logger_logged)

lemma got_fields [simp]:
  "clock (got clk r rest w) = clk"
  "is_open (got clk r rest w) = True"
  "wire (got clk r rest w) = wire w"
  "incoming (got clk r rest w) = rest"
  "slept (got clk r rest w) = slept w"
  "console (got clk r rest w) = console w"
  "max_log_length (got clk r rest w) = max_log_length w"
  "timeout (got clk r rest w) = timeout w"
  "auto_save (got clk r rest w) = auto_save w"
  "last_query_time_s (got clk r rest w) = last_query_time_s w"
  "min_query_interval_s (got clk r rest w) = min_query_interval_s w"
  by (simp_all add: got_def)

lemma read_returns:
  assumes "SerialDevice_read w = Return r w'"
  shows "\<exists>clk rest. read_loop (clock w) (timeout w) (clock w) (incoming w) = Some (r, clk, rest)
           \<and> w' = got clk r rest w"
  using assms
  by (auto simp: SerialDevice_read_def Let_def open_if got_def
      split: option.splits outcome.splits dest!: logger_returns)

lemma read_loop_later:
  assumes "list_all (\<lambda>e. 0 \<le> fst e) es"
    and "read_loop start tmo clk es = Some (r, clk', rest)"
  shows "clk \<le> clk' \<and> list_all (\<lambda>e. 0 \<le> fst e) rest"
  using assms
proof (induction start tmo clk es rule: read_loop.induct)
  case (1 start tmo clk)
  then show ?case by simp
next
  case (2 start tmo clk d r0 es)
  show ?case
  proof (cases "tmo \<noteq> None \<and> clk + d - start > the tmo")
    case True
    with 2 show ?thesis by auto
  next
    case False
    show ?thesis
    proof (cases r0)
      case None
      with False 2 have "clk + d \<le> clk' \<and> list_all (\<lambda>e. 0 \<le> fst e) rest"
        by auto
      with 2(2) show ?thesis by auto
    next
      case (Some b)
      with False 2 show ?thesis by auto
    qed
  qed
qed

lemma read_line:
  assumes "0 \<le> max_log_length w" and "incoming w = (d, Some b) # rest"
  shows "SerialDevice_read w =
           Return (answer (timeout w) (d, b)) (got (clock w + d) (answer (timeout w) (d, b)) rest w)"
  using assms
  by (auto simp: SerialDevice_read_def Let_def open_if answer_def got_def logger_logged)

lemma query_line:
  assumes "0 \<le> max_log_length w" and "incoming w = (d, Some b) # rest"
  shows "SerialDevice_query cmd w =
           Return (answer (timeout w) (d, b))
             (got (clock w + d) (answer (timeout w) (d, b)) rest (written cmd w))"
  using assms by (simp add: SerialDevice_query_def write_written read_line)

lemma query_returns:
  assumes "SerialDevice_query cmd w = Return r w'"
  shows "\<exists>clk rest. read_loop (clock w) (timeout w) (clock w) (incoming w) = Some (r, clk, rest)
           \<and> w' = got clk r rest (written cmd w)"
proof -
  from assms obtain w1 where w1: "SerialDevice_write cmd w = Return () w1"
    and rd: "SerialDevice_read w1 = Return r w'"
    by (auto simp: SerialDevice_query_def split: outcome.splits)
  from w1 have "w1 = written cmd w" by (rule write_returns)
  with read_returns [OF rd] show ?thesis by simp
qed

lemma throttled_fields [simp]:
  "is_open (throttled w) = is_open w"
  "wire (throttled w) = wire w"
  "incoming (throttled w) = incoming w"
  "console (throttled w) = console w"
  "max_log_length (throttled w) = max_log_length w"
  "timeout (throttled w) = timeout w"
  "auto_save (throttled w) = auto_save w"
  "last_query_time_s (throttled w) = last_query_time_s w"
  "min_query_interval_s (throttled w) = min_query_interval_s w"
  by (simp_all add: throttled_def sleep_def)

lemma throttled_clock:
  "clock (throttled w) = clock w + max 0 (min_query_interval_s w - (clock w - last_query_time_s w))"
  by (simp add: throttled_def sleep_def max_def)

lemma query_throttled:
  "MTD415T_query setting retry w =
     (case SerialDevice_query (setting @ ''?'') (throttled w) of
        Hang \<Rightarrow> Hang
      | Raise e w2 \<Rightarrow> Raise e w2
      | Return result w2 \<Rightarrow>
          if retry \<and> (result = Some unknown_command \<or> result = None)
          then MTD415T_query setting True (sleep (1 / 10) (w2\<lparr>last_query_time_s := clock w2\<rparr>))
          else Return result (w2\<lparr>last_query_time_s := clock w2\<rparr>))"
  by (subst MTD415T_query.simps) (simp add: throttled_def Let_def)

lemma query_invariants:
  assumes "MTD415T_query setting retry w = Return r w'"
    and "list_all (\<lambda>e. 0 \<le> fst e) (incoming w)"
  shows "last_query_time_s w' = clock w' \<and>
         min_query_interval_s w' = min_query_interval_s w \<and>
         (\<exists>more. wire w' = wire w @ (clock (throttled w), setting @ ''?'' @ nl) # more) \<and>
         clock (throttled w) \<le> clock w' \<and>
         list_all (\<lambda>e. 0 \<le> fst e) (incoming w')"
  using assms
proof (induction "length (incoming w)" arbitrary: w retry rule: less_induct)
  case less
  let ?cmd = "setting @ ''?''"
  from less.prems(1) obtain result w2 where sq: "SerialDevice_query ?cmd (throttled w) = Return result w2"
    by (subst (asm) query_throttled) (auto split: outcome.splits)
  from query_returns [OF sq] obtain clk rest where
    rl: "read_loop (clock (throttled w)) (timeout w) (clock (throttled w)) (incoming w) = Some (result, clk, rest)"
    and w2: "w2 = got clk result rest (written ?cmd (throttled w))"
    by auto
  from read_loop_later [OF less.prems(2) rl]
  have clk: "clock (throttled w) \<le> clk" and rest: "list_all (\<lambda>e. 0 \<le> fst e) rest" by auto
  from read_loop_shorter [OF rl] have shorter: "length rest < length (incoming w)" .
  let ?w3 = "w2\<lparr>last_query_time_s := clock w2\<rparr>"
  show ?case
  proof (cases "retry \<and> (result = Some unknown_command \<or> result = None)")
    case False
    with less.prems(1) sq have "w' = ?w3"
      by (subst (asm) query_throttled) (auto split: if_splits)
    with w2 clk rest show ?thesis by simp
  next
    case True
    let ?w4 = "sleep (1 / 10) ?w3"
    from True less.prems(1) sq have rec: "MTD415T_query setting True ?w4 = Return r w'"
      by (subst (asm) query_throttled) (auto split: if_splits)
    have inc: "incoming ?w4 = rest" using w2 by (simp add: sleep_def)
    have "last_query_time_s w' = clock w' \<and>
         min_query_interval_s w' = min_query_interval_s ?w4 \<and>
         (\<exists>more. wire w' = wire ?w4 @ (clock (throttled ?w4), setting @ ''?'' @ nl) # more) \<and>
         clock (throttled ?w4) \<le> clock w' \<and>
         list_all (\<lambda>e. 0 \<le> fst e) (incoming w')"
      using shorter rest inc by (intro less.hyps [OF _ rec]) simp_all
    moreover have "clock ?w4 \<le> clock (throttled ?w4)"
      by (simp add: throttled_clock)
    moreover have "clock ?w4 = clk + 1 / 10" "wire ?w4 = wire w @ [(clock (throttled w), ?cmd @ nl)]"
      "min_query_interval_s ?w4 = min_query_interval_s w"
      using w2 by (simp_all add: sleep_def)
    ultimately show ?thesis using clk by auto
  qed
qed

lemma query_unfold:
  assumes "0 \<le> max_log_length w" and "incoming w = (d, Some b) # rest"
  shows "MTD415T_query setting retry w =
           (let r = answer (timeout w) (d, b);
                w2 = got (clock (throttled w) + d) r rest (written (setting @ ''?'') (throttled w));
                w3 = w2\<lparr>last_query_time_s := clock w2\<rparr>
            in if retry \<and> retried r then MTD415T_query setting True (sleep (1 / 10) w3)
               else Return r w3)"
proof -
  have "SerialDevice_query (setting @ ''?'') (throttled w) =
          Return (answer (timeout w) (d, b))
            (got (clock (throttled w) + d) (answer (timeout w) (d, b)) rest
               (written (setting @ ''?'') (throttled w)))"
    using assms query_line [of "throttled w" d b rest "setting @ ''?''"] by simp
  then show ?thesis
    by (subst query_throttled) (simp add: Let_def retried_def)
qed





section \<open>Throttling\<close>

text \<open>
  C7. Two queries, the second starting in the state the first one left, on a link whose
  reads take no negative time. The first command of a query is written after a sleep of
  exactly \<open>min_query_interval_s - (time() - last_query_time_s)\<close> when that is positive
  and at once otherwise; a query that returns leaves \<open>last_query_time_s\<close> at the current
  time; so the second query starts at least \<open>min_query_interval_s\<close> after the first.
\<close>

theorem queries_spaced:
  assumes "list_all (\<lambda>e. 0 \<le> fst e) (incoming w)"
    and "MTD415T_query s1 r1 w = Return x w1"
    and "MTD415T_query s2 r2 w1 = Return y w2"
  shows "fst (wire w1 ! length (wire w)) =
           clock w + max 0 (min_query_interval_s w - (clock w - last_query_time_s w)) \<and>
         last_query_time_s w1 = clock w1 \<and>
         fst (wire w2 ! length (wire w1)) = clock w1 + max 0 (min_query_interval_s w) \<and>
         last_query_time_s w2 = clock w2 \<and>
         fst (wire w1 ! length (wire w)) + min_query_interval_s w \<le> fst (wire w2 ! length (wire w1))"
proof -
  from query_invariants [OF assms(2) assms(1)] obtain more1 where
    a: "last_query_time_s w1 = clock w1" "min_query_interval_s w1 = min_query_interval_s w"
       "wire w1 = wire w @ (clock (throttled w), s1 @ ''?'' @ nl) # more1"
       "clock (throttled w) \<le> clock w1" "list_all (\<lambda>e. 0 \<le> fst e) (incoming w1)"
    by auto
  from query_invariants [OF assms(3) a(5)] obtain more2 where
    b: "last_query_time_s w2 = clock w2"
       "wire w2 = wire w1 @ (clock (throttled w1), s2 @ ''?'' @ nl) # more2"
    by auto
  have t1: "fst (wire w1 ! length (wire w)) = clock (throttled w)"
    using a(3) by (simp add: nth_append)
  have t2: "fst (wire w2 ! length (wire w1)) = clock (throttled w1)"
    using b(2) by (simp add: nth_append)
  have c2: "clock (throttled w1) = clock w1 + max 0 (min_query_interval_s w)"
    using a(1,2) by (simp add: throttled_clock)
  show ?thesis
    using a(1,4) b(1) t1 t2 c2 by (simp add: throttled_clock)
qed

lemma first_query: "MTD415T_query ''L'' True two_answers = Return (Some (''500'' @ nl)) after_first"
  unfolding after_first_def two_answers_def by code_simp

lemma second_query: "MTD415T_query ''T'' True after_first = Return (Some (''20000'' @ nl)) after_second"
  unfolding after_second_def after_first_def two_answers_def by code_simp

theorem queries_spaced_witness:
  "list_all (\<lambda>e. 0 \<le> fst e) (incoming two_answers) \<and>
   MTD415T_query ''L'' True two_answers = Return (Some (''500'' @ nl)) after_first \<and>
   MTD415T_query ''T'' True after_first = Return (Some (''20000'' @ nl)) after_second \<and>
   fst (wire after_first ! length (wire two_answers)) =
     clock two_answers + max 0 (min_query_interval_s two_answers -
       (clock two_answers - last_query_time_s two_answers)) \<and>
   last_query_time_s after_first = clock after_first \<and>
   fst (wire after_second ! length (wire after_first)) =
     clock after_first + max 0 (min_query_interval_s two_answers) \<and>
   last_query_time_s after_second = clock after_second \<and>
   fst (wire after_first ! length (wire two_answers)) + min_query_interval_s two_answers
     \<le> fst (wire after_second ! length (wire after_first))"
proof -
  have h: "list_all (\<lambda>e. 0 \<le> fst e) (incoming two_answers)"
    by (simp add: two_answers_def fresh_def MTD415TDevice_init_def)
  from queries_spaced [OF h first_query second_query] h first_query second_query
  show ?thesis by simp
qed

section \<open>Decimal text\<close>

text \<open>
  The decimal form of an integer has no white space and no letter, reads back as the
  integer it was made from, and so differs for different integers.
\<close>

lemma below_ten:
  "d < 10 \<Longrightarrow> d = 0 \<or> d = 1 \<or> d = 2 \<or> d = 3 \<or> d = 4 \<or> d = 5 \<or> d = 6 \<or> d = 7 \<or> d = 8 \<or> d = (9::nat)"
  by arith

lemma digit_char_is_digit: "d < 10 \<Longrightarrow> is_digit (digit_char d)"
  by (drule below_ten) (elim disjE; simp add: is_digit_def digit_char_def)

lemma digit_val_char: "d < 10 \<Longrightarrow> digit_val (digit_char d) = d"
  by (drule below_ten) (elim disjE; simp add: digit_val_def digit_char_def)

lemma dec_rev_not_Nil: "dec_rev n \<noteq> []"
  by (subst dec_rev.simps) simp

lemma dec_rev_digits: "list_all is_digit (dec_rev n)"
proof (induction n rule: dec_rev.induct)
  case (1 n)
  show ?case
  proof (cases "n < 10")
    case True
    then show ?thesis by (subst dec_rev.simps) (simp add: digit_char_is_digit)
  next
    case False
    with 1 show ?thesis by (subst dec_rev.simps) (simp add: digit_char_is_digit)
  qed
qed

lemma nat_of_digits_snoc: "nat_of_digits (s @ [c]) = 10 * nat_of_digits s + digit_val c"
  by (simp add: nat_of_digits_def)

lemma nat_of_dec_rev: "nat_of_digits (rev (dec_rev n)) = n"
proof (induction n rule: dec_rev.induct)
  case (1 n)
  show ?case
  proof (cases "n < 10")
    case True
    then show ?thesis
      by (subst dec_rev.simps) (simp add: nat_of_digits_def digit_val_char)
  next
    case False
    with 1 have "nat_of_digits (rev (dec_rev (n div 10))) = n div 10" by simp
    with False show ?thesis
      by (subst dec_rev.simps) (simp add: nat_of_digits_snoc digit_val_char)
  qed
qed

lemma is_digit_not_sign: "is_digit c \<Longrightarrow> c \<noteq> CHR ''-'' \<and> c \<noteq> CHR ''+'' \<and> \<not> is_space c \<and> \<not> is_alpha c"
  by (auto simp: is_digit_def is_space_def is_alpha_def)

lemma int_literal_digits:
  assumes "s \<noteq> []" and "list_all is_digit s"
  shows "int_literal s = Some (int (nat_of_digits s))"
  using assms by (cases s) (auto simp: int_literal_def dest: is_digit_not_sign)

lemma int_literal_format_d: "int_literal (format_d n) = Some n"
proof (cases "n < 0")
  case True
  then show ?thesis
    by (simp add: format_d_def int_literal_def dec_rev_not_Nil dec_rev_digits nat_of_dec_rev)
next
  case False
  then show ?thesis
    by (simp add: format_d_def int_literal_digits dec_rev_not_Nil dec_rev_digits nat_of_dec_rev)
qed


lemma format_d_not_Nil: "format_d n \<noteq> []"
  by (simp add: format_d_def dec_rev_not_Nil)

lemma format_d_char_cases:
  assumes "c \<in> set (format_d n)"
  shows "c = CHR ''-'' \<or> is_digit c"
proof -
  have "list_all is_digit (dec_rev (nat n))" "list_all is_digit (dec_rev (nat (- n)))"
    by (rule dec_rev_digits)+
  then have "\<forall>x\<in>set (dec_rev (nat n)). is_digit x" "\<forall>x\<in>set (dec_rev (nat (- n))). is_digit x"
    by (simp_all only: list_all_iff)
  with assms show ?thesis
    by (cases "n < 0") (auto simp: format_d_def)
qed

lemma minus_plain: "\<not> is_space (CHR ''-'') \<and> \<not> is_alpha (CHR ''-'')"
  by (simp add: is_space_def is_alpha_def)

lemma format_d_chars: "c \<in> set (format_d n) \<Longrightarrow> \<not> is_space c \<and> \<not> is_alpha c"
  using format_d_char_cases [of c n] is_digit_not_sign [of c] minus_plain by blast

lemma strip_line:
  assumes "s \<noteq> []" and "\<not> is_space (hd s)" and "\<not> is_space (last s)"
  shows "strip (s @ nl) = s"
proof -
  from assms obtain c cs where s: "s = c # cs" by (cases s) auto
  with assms have front: "dropWhile is_space (s @ nl) = s @ nl" by simp
  have "rev s \<noteq> []" using assms by simp
  then obtain x xs where r: "rev s = x # xs" by (cases "rev s") auto
  then have "x = last s" using assms(1) by (simp add: last_rev [symmetric] del: last_rev)
  with assms have "\<not> is_space x" by simp
  with r have "dropWhile is_space (rev (s @ nl)) = rev s"
    by (simp add: nl_def is_space_def)
  with front show ?thesis by (simp add: strip_def)
qed

lemma strip_format_d: "strip (format_d n @ nl) = format_d n"
proof (rule strip_line)
  show "format_d n \<noteq> []" by (rule format_d_not_Nil)
  then have "hd (format_d n) \<in> set (format_d n)" "last (format_d n) \<in> set (format_d n)"
    by simp_all
  then show "\<not> is_space (hd (format_d n))" "\<not> is_space (last (format_d n))"
    using format_d_chars by blast+
qed

lemma parse_format_d: "parse_number letters (format_d n @ nl) = Inr n"
  by (simp add: parse_number_def strip_format_d int_literal_format_d)

lemma py_int_text_format_d: "py_int_text (format_d n @ nl) = Inr n"
  by (simp add: py_int_text_def parse_format_d)

lemma py_float_text_format_d: "py_float_text (format_d n @ nl) = Inr (of_int n)"
  by (simp add: py_float_text_def parse_format_d)

lemma format_d_not_unknown: "format_d n @ nl \<noteq> unknown_command"
proof
  assume "format_d n @ nl = unknown_command"
  then have "format_d n = ''unknown command''" by (simp add: unknown_command_def)
  then have "CHR ''u'' \<in> set (format_d n)" by simp
  then show False using format_d_chars [of "CHR ''u''" n] by (simp add: is_alpha_def)
qed

lemma digit_ascii: "is_digit c \<Longrightarrow> (of_char c :: nat) < 128"
  by (auto simp: is_digit_def)

lemma decode_ascii_format_d: "decode_ascii (format_d n @ nl) = Inr (format_d n @ nl)"
proof -
  have "\<forall>c\<in>set (format_d n). (of_char c :: nat) < 128"
  proof
    fix c assume "c \<in> set (format_d n)"
    then have "c = CHR ''-'' \<or> is_digit c" by (rule format_d_char_cases)
    then show "(of_char c :: nat) < 128" using digit_ascii by auto
  qed
  then have "\<not> list_ex (\<lambda>c. (of_char c :: nat) \<ge> 128) (format_d n @ nl)"
    by (auto simp: list_ex_iff nl_def)
  then show ?thesis by (simp add: decode_ascii_def)
qed

section \<open>The setters, by the value they get\<close>

lemma trunc_of_int: "trunc (of_int n) = n"
  by (simp add: trunc_def)

lemma number_cases:
  obtains (none) "number val = None" "validate_is_float_or_int val name = Inl (TypeError name)"
  | (some) x where "number val = Some x" "validate_is_float_or_int val name = Inr ()"
      "py_int val = Inr (trunc x)" "times_1e3 val = Inr (x * 1000)"
proof (cases val)
  case (PyInt n)
  then show ?thesis
    using some [of "of_int n"] by (simp add: trunc_of_int times_1e3_def)
next
  case (PyFloat x)
  then show ?thesis
    using some [of x] by (simp add: times_1e3_def)
qed (use none in simp_all)

lemma scaled_setter:
  assumes "p \<noteq> Status_delay"
  shows "or_raise (validate_is_float_or_int val (setting_name p)) (\<lambda>u.
     or_raise (validate_is_in_range val lo hi (setting_name p) (unit_label p)) (\<lambda>u.
       or_raise (times_1e3 val) (\<lambda>y. MTD415T_set (wire_code p) (PyInt (py_round y))))) w
   = setter_result p lo hi val w"
  using assms
  by (cases val rule: number_cases [where name = "setting_name p"])
     (simp_all add: or_raise_def validate_is_in_range_def setter_result_def checked_def
        wire_value_def)

lemma status_delay_setter:
  "set_status_delay val w = setter_result Status_delay 1 32768 val w"
  by (cases val rule: number_cases [where name = "''Status delay''"])
     (simp_all add: set_status_delay_def or_raise_def validate_is_in_range_def
        setter_result_def checked_def wire_value_def)

lemma setattr_table:
  "setattr Tec_current_limit val w = setter_result Tec_current_limit (1 / 5) 2 val w"
  "setattr Temp_setpoint val w = setter_result Temp_setpoint 5 45 val w"
  "setattr Status_temp_window val w = setter_result Status_temp_window (1 / 1000) (32768 / 1000) val w"
  "setattr Status_delay val w = setter_result Status_delay 1 32768 val w"
  "setattr Critical_gain val w = setter_result Critical_gain (10 / 1000) 100 val w"
  "setattr Critical_period val w = setter_result Critical_period (100 / 1000) 100000 val w"
  "setattr Cycling_time val w = setter_result Cycling_time (1 / 1000) 1 val w"
  "setattr P_gain val w = setter_result P_gain 0 100 val w"
  "setattr I_gain val w = setter_result I_gain 0 100 val w"
  "setattr D_gain val w = setter_result D_gain 0 100 val w"
proof -
  show "setattr Tec_current_limit val w = setter_result Tec_current_limit (1 / 5) 2 val w"
    using scaled_setter [of Tec_current_limit val "1 / 5" "2" w] by (simp add: set_tec_current_limit_def)
  show "setattr Temp_setpoint val w = setter_result Temp_setpoint 5 45 val w"
    using scaled_setter [of Temp_setpoint val "5" "45" w] by (simp add: set_temp_setpoint_def)
  show "setattr Status_temp_window val w = setter_result Status_temp_window (1 / 1000) (32768 / 1000) val w"
    using scaled_setter [of Status_temp_window val "1 / 1000" "32768 / 1000" w] by (simp add: set_status_temp_window_def)
  show "setattr Status_delay val w = setter_result Status_delay 1 32768 val w"
    by (simp add: status_delay_setter)
  show "setattr Critical_gain val w = setter_result Critical_gain (10 / 1000) 100 val w"
    using scaled_setter [of Critical_gain val "10 / 1000" "100" w] by (simp add: set_critical_gain_def)
  show "setattr Critical_period val w = setter_result Critical_period (100 / 1000) 100000 val w"
    using scaled_setter [of Critical_period val "100 / 1000" "100000" w] by (simp add: set_critical_period_def)
  show "setattr Cycling_time val w = setter_result Cycling_time (1 / 1000) 1 val w"
    using scaled_setter [of Cycling_time val "1 / 1000" "1" w] by (simp add: set_cycling_time_def)
  show "setattr P_gain val w = setter_result P_gain 0 100 val w"
    using scaled_setter [of P_gain val "0" "100" w] by (simp add: set_p_gain_def)
  show "setattr I_gain val w = setter_result I_gain 0 100 val w"
    using scaled_setter [of I_gain val "0" "100" w] by (simp add: set_i_gain_def)
  show "setattr D_gain val w = setter_result D_gain 0 100 val w"
    using scaled_setter [of D_gain val "0" "100" w] by (simp add: set_d_gain_def)
qed

lemma setattr_cases:
  assumes "documented_range p = Some (lo, hi)"
  shows "setattr p val w = setter_result p lo hi val w"
proof (cases p)
  case Tec_current_limit
  with assms have "lo = 1 / 5" "hi = 2" by simp_all
  with Tec_current_limit show ?thesis by (simp only: setattr_table)
next
  case Temp_setpoint
  with assms have "lo = 5" "hi = 45" by simp_all
  with Temp_setpoint show ?thesis by (simp only: setattr_table)
next
  case Status_temp_window
  with assms have "lo = 1 / 1000" "hi = 32768 / 1000" by simp_all
  with Status_temp_window show ?thesis by (simp only: setattr_table)
next
  case Status_delay
  with assms have "lo = 1" "hi = 32768" by simp_all
  with Status_delay show ?thesis by (simp only: setattr_table)
next
  case Critical_gain
  with assms have "lo = 10 / 1000" "hi = 100" by simp_all
  with Critical_gain show ?thesis by (simp only: setattr_table)
next
  case Critical_period
  with assms have "lo = 100 / 1000" "hi = 100000" by simp_all
  with Critical_period show ?thesis by (simp only: setattr_table)
next
  case Cycling_time
  with assms have "lo = 1 / 1000" "hi = 1" by simp_all
  with Cycling_time show ?thesis by (simp only: setattr_table)
next
  case P_gain
  with assms have "lo = 0" "hi = 100" by simp_all
  with P_gain show ?thesis by (simp only: setattr_table)
next
  case I_gain
  with assms have "lo = 0" "hi = 100" by simp_all
  with I_gain show ?thesis by (simp only: setattr_table)
next
  case D_gain
  with assms have "lo = 0" "hi = 100" by simp_all
  with D_gain show ?thesis by (simp only: setattr_table)
qed (use assms in simp_all)




section \<open>Validation in the setters\<close>

text \<open>
  C5, as the code has it. A setter given a value that is not a number raises the type
  error, and one given a number outside the range of the setting raises the range
  error, both in the state it was called in: nothing is logged, written or read. The
  number tested is the value itself, except for the status delay, where it is the value
  cut to an integer (\<open>checked\<close>). The witness is \<open>tec_current_limit = 0.1\<close>.
\<close>

theorem setters_validate_before_sending:
  assumes "documented_range p = Some (lo, hi)"
  shows "(number val = None \<longrightarrow> setattr p val w = Raise (TypeError (setting_name p)) w) \<and>
         (number val = Some x \<and> (checked p x < lo \<or> hi < checked p x) \<longrightarrow>
            (\<exists>bound. setattr p val w = Raise (RangeError (setting_name p) bound (unit_label p)) w))"
  using setattr_cases [OF assms, of val w]
  by (auto simp: setter_result_def)

theorem setters_validate_before_sending_witness:
  "documented_range Tec_current_limit = Some (200 / 1000, 2) \<and>
   number (PyFloat (1 / 10)) = Some (1 / 10) \<and>
   checked Tec_current_limit (1 / 10) < 200 / 1000 \<and>
   (\<exists>bound. setattr Tec_current_limit (PyFloat (1 / 10)) (fresh (Some 1) 100 []) =
      Raise (RangeError ''TEC current limit'' bound '' A'') (fresh (Some 1) 100 [])) \<and>
   number (PyStr ''0.5'') = None \<and>
   setattr Tec_current_limit (PyStr ''0.5'') (fresh (Some 1) 100 []) =
     Raise (TypeError ''TEC current limit'') (fresh (Some 1) 100 [])"
  using setters_validate_before_sending
      [of Tec_current_limit "200 / 1000" 2 "PyFloat (1 / 10)" "fresh (Some 1) 100 []" "1 / 10"]
    setters_validate_before_sending
      [of Tec_current_limit "200 / 1000" 2 "PyStr ''0.5''" "fresh (Some 1) 100 []" 0]
  by (simp add: checked_def)

section \<open>The confirmation of a set command\<close>

lemma set_line:
  assumes "0 \<le> max_log_length w" and "incoming w = (d, Some line) # rest"
    and "py_int val = Inr v"
  shows "MTD415T_set setting val w =
     (let r = answer (timeout w) (d, line);
          w2 = got (clock w + d) r rest (written (setting @ format_d v) w)
      in case r of
           None \<Rightarrow> Raise (AttributeError ''strip'') w2
         | Some l \<Rightarrow>
             if strip l \<noteq> format_d v
             then Raise (ValueError setting (format_d v) (strip l)) (print_dump_log w2)
             else if auto_save w2
             then save (w2\<lparr>console := console w2 @
                    [Line ''WARNING: Using auto-save mode! This warning persists.'']\<rparr>)
             else Return PyNone w2)"
proof -
  have rd: "SerialDevice_read (written (setting @ format_d v) w) =
      Return (answer (timeout w) (d, line))
        (got (clock w + d) (answer (timeout w) (d, line)) rest (written (setting @ format_d v) w))"
    using assms read_line [of "written (setting @ format_d v) w" d line rest] by simp
  show ?thesis
    using assms(1,3)
    by (cases "answer (timeout w) (d, line)")
       (simp_all add: MTD415T_set_def or_raise_def then_do_def MTD415T_write_def write_written
          rd Let_def)
qed

text \<open>
  C4. The device answers a set command in time with a line that, stripped, is not the
  decimal form of the integer sent. Then \<open>set\<close> ends by raising the error that carries
  the stripped line; before that it has printed the log, whose last entry is the line
  just read; the command went on the wire once and one answer was consumed, so nothing
  was tried again. The setters call \<open>set\<close> last and handle no exception, so the outcome
  of \<open>set\<close> is theirs (\<open>setattr_cases\<close>).
\<close>

theorem set_mismatch_raises_device_message:
  assumes "0 \<le> max_log_length w"
    and "incoming w = (d, Some line) # rest"
    and "answer (timeout w) (d, line) = Some line"
    and "py_int val = Inr v"
    and "strip line \<noteq> format_d v"
  shows "\<exists>w'. MTD415T_set setting val w
             = Raise (ValueError setting (format_d v) (strip line)) w' \<and>
           console w' = console w @
             [Line ''------- MTD415 COMMUNICATION LOG DUMP ---------'',
              DumpLog (comm_log w'),
              Line ''--------- COMMUNICATION LOG DUMP END ----------''] \<and>
           last (comm_log w') = \<lparr>kind = ''read'', time = clock w + d, content = Some line\<rparr> \<and>
           map snd (wire w') = map snd (wire w) @ [setting @ format_d v @ nl] \<and>
           incoming w' = rest"
  using assms
  by (simp add: set_line Let_def print_dump_log_def) (simp add: got_def logged_def)

section \<open>Runs on concrete devices\<close>

lemma dec_rev_small: "n < 10 \<Longrightarrow> dec_rev n = [digit_char n]"
  by (subst dec_rev.simps) simp

lemma dec_rev_step: "\<not> n < 10 \<Longrightarrow> dec_rev n = digit_char (n mod 10) # dec_rev (n div 10)"
  by (subst dec_rev.simps) simp

lemmas format_d_numeral = format_d_def dec_rev_small dec_rev_step digit_char_def

lemma fresh_fields [simp]:
  "clock (fresh tmo mll script) = 0"
  "wire (fresh tmo mll script) = []"
  "incoming (fresh tmo mll script) = script"
  "slept (fresh tmo mll script) = []"
  "console (fresh tmo mll script) = []"
  "comm_log (fresh tmo mll script) = []"
  "max_log_length (fresh tmo mll script) = mll"
  "timeout (fresh tmo mll script) = tmo"
  "auto_save (fresh tmo mll script) = False"
  "last_query_time_s (fresh tmo mll script) = 0"
  "min_query_interval_s (fresh tmo mll script) = 1 / 100"
  by (simp_all add: fresh_def MTD415TDevice_init_def)

lemma set_confirmed:
  assumes "0 \<le> max_log_length w"
    and "incoming w = (d, Some line) # rest"
    and "answer (timeout w) (d, line) = Some line"
    and "py_int val = Inr v"
    and "strip line = format_d v"
    and "\<not> auto_save w"
  shows "MTD415T_set setting val w =
           Return PyNone (got (clock w + d) (Some line) rest (written (setting @ format_d v) w))"
  using assms by (simp add: set_line Let_def)

text \<open>
  C5 as claimed fails for the status delay: 32768.5 lies above the range 1..32768, yet
  the setter raises nothing and sends \<open>d32768\<close>, because it cuts the value to an
  integer before it tests the range.
\<close>

theorem status_delay_above_range_counterexample:
  "raised (setattr Status_delay (PyFloat (65537 / 2))
      (fresh (Some 1) 100 [(1 / 100, Some (''32768'' @ nl))])) = None \<and>
   map_option (map snd \<circ> wire) (state_of (setattr Status_delay (PyFloat (65537 / 2))
      (fresh (Some 1) 100 [(1 / 100, Some (''32768'' @ nl))]))) = Some [''d32768'' @ nl]"
proof -
  let ?line = "''32768'' @ nl"
  let ?w = "fresh (Some 1) 100 [(1 / 100, Some ?line)]"
  have f: "format_d 32768 = ''32768''"
    by (simp add: format_d_numeral)
  have t: "trunc (65537 / 2) = 32768"
    by (simp add: trunc_def floor_eq_iff)
  have h5: "strip ?line = format_d 32768"
    using strip_format_d [of 32768] by (simp only: f)
  have h3: "answer (timeout ?w) (1 / 100, ?line) = Some ?line"
    by (simp add: answer_def)
  have "setattr Status_delay (PyFloat (65537 / 2)) ?w = MTD415T_set ''d'' (PyInt 32768) ?w"
    by (simp add: status_delay_setter setter_result_def checked_def wire_value_def t)
  moreover have "MTD415T_set ''d'' (PyInt 32768) ?w =
      Return PyNone (got (clock ?w + 1 / 100) (Some ?line) [] (written (''d'' @ format_d 32768) ?w))"
    using h3 h5 by (intro set_confirmed) simp_all
  ultimately show ?thesis
    by (simp add: f)
qed

theorem set_mismatch_raises_device_message_witness:
  "0 \<le> max_log_length (fresh (Some 1) 100 [(1 / 2, Some (''value out of range'' @ nl))]) \<and>
   answer (timeout (fresh (Some 1) 100 [(1 / 2, Some (''value out of range'' @ nl))]))
       (1 / 2, ''value out of range'' @ nl) = Some (''value out of range'' @ nl) \<and>
   py_int (PyInt 100) = Inr 100 \<and>
   strip (''value out of range'' @ nl) \<noteq> format_d 100 \<and>
   (\<exists>w'. MTD415T_set ''L'' (PyInt 100)
            (fresh (Some 1) 100 [(1 / 2, Some (''value out of range'' @ nl))])
          = Raise (ValueError ''L'' (format_d 100) (strip (''value out of range'' @ nl))) w' \<and>
        console w' =
          [Line ''------- MTD415 COMMUNICATION LOG DUMP ---------'',
           DumpLog (comm_log w'),
           Line ''--------- COMMUNICATION LOG DUMP END ----------''] \<and>
        last (comm_log w') =
          \<lparr>kind = ''read'', time = 1 / 2, content = Some (''value out of range'' @ nl)\<rparr> \<and>
        map snd (wire w') = [''L'' @ format_d 100 @ nl] \<and>
        incoming w' = [])"
proof -
  let ?line = "''value out of range'' @ nl"
  let ?w = "fresh (Some 1) 100 [(1 / 2, Some ?line)]"
  have f: "format_d 100 = ''100''"
    by (simp add: format_d_numeral)
  have s: "strip ?line = ''value out of range''"
    by (rule strip_line) (simp_all add: is_space_def)
  have h1: "0 \<le> max_log_length ?w" and h2: "incoming ?w = (1 / 2, Some ?line) # []"
    and h3: "answer (timeout ?w) (1 / 2, ?line) = Some ?line"
    by (simp_all add: answer_def)
  have h4: "py_int (PyInt 100) = Inr 100" by simp
  have h5: "strip ?line \<noteq> format_d 100" unfolding s f by simp
  from set_mismatch_raises_device_message [OF h1 h2 h3 h4 h5, of "''L''"] h1 h3 h5
  show ?thesis
    by simp
qed

section \<open>What a call that returns has done\<close>


lemma then_do_assoc: "then_do (then_do m f) g = then_do m (\<lambda>x w. then_do (f x w) g)"
  by (cases m) (simp_all add: then_do_def)




text \<open>Two attempts when the first answer is one that is retried, one attempt without \<open>retry\<close>.\<close>

lemma query_answered:
  assumes "0 \<le> max_log_length w" and "incoming w = (d, Some b) # rest"
    and "\<not> (retry \<and> retried (answer (timeout w) (d, b)))"
  shows "\<exists>w'. MTD415T_query c retry w = Return (answer (timeout w) (d, b)) w' \<and>
           map snd (wire w') = map snd (wire w) @ [c @ ''?'' @ nl] \<and>
           incoming w' = rest \<and> max_log_length w' = max_log_length w \<and> timeout w' = timeout w"
proof -
  from assms(3) have "\<not> retry \<or> \<not> retried (answer (timeout w) (d, b))"
    by blast
  then show ?thesis
  proof
    assume "\<not> retry"
    with assms(1,2) show ?thesis by (simp add: query_unfold Let_def)
  next
    assume "\<not> retried (answer (timeout w) (d, b))"
    with assms(1,2) show ?thesis by (simp add: query_unfold Let_def)
  qed
qed

lemma query_retried_once:
  assumes "0 \<le> max_log_length w"
    and "incoming w = (d1, Some l1) # (d2, Some l2) # rest"
    and "retried (answer (timeout w) (d1, l1))"
    and "\<not> retried (answer (timeout w) (d2, l2))"
  shows "\<exists>w'. MTD415T_query c True w = Return (answer (timeout w) (d2, l2)) w' \<and>
           map snd (wire w') = map snd (wire w) @ [c @ ''?'' @ nl, c @ ''?'' @ nl] \<and>
           incoming w' = rest"
proof -
  let ?r = "answer (timeout w) (d1, l1)"
  let ?w2 = "got (clock (throttled w) + d1) ?r ((d2, Some l2) # rest) (written (c @ ''?'') (throttled w))"
  let ?w4 = "sleep (1 / 10) (?w2\<lparr>last_query_time_s := clock ?w2\<rparr>)"
  have step: "MTD415T_query c True w = MTD415T_query c True ?w4"
    using assms by (simp add: query_unfold Let_def)
  have "\<exists>w'. MTD415T_query c True ?w4 = Return (answer (timeout ?w4) (d2, l2)) w' \<and>
           map snd (wire w') = map snd (wire ?w4) @ [c @ ''?'' @ nl] \<and>
           incoming w' = rest \<and> max_log_length w' = max_log_length ?w4 \<and> timeout w' = timeout ?w4"
    using assms by (intro query_answered) (simp_all add: sleep_def)
  then show ?thesis
    unfolding step by (auto simp: sleep_def)
qed

lemma getattr_query:
  "getattr p w = then_do (MTD415T_query (wire_code p) (p \<noteq> Tec_voltage) w) (reading p)"
proof -
  have ef: "error_flags w = then_do (MTD415T_query ''E'' True w) flags_reading"
    unfolding error_flags_def flags_reading_def by (rule refl)
  have er: "errors w = then_do (error_flags w) names_reading"
    unfolding errors_def names_reading_def by (rule refl)
  have sd: "status_delay w = then_do (MTD415T_query ''d'' True w) int_reading"
    unfolding status_delay_def int_reading_def by (rule refl)
  show ?thesis
    by (cases p)
       (simp_all add: idn_def uid_def ef er sd then_do_assoc tec_current_limit_def tec_current_def
          tec_voltage_def temp_def temp_setpoint_def status_temp_window_def critical_gain_def
          critical_period_def cycling_time_def p_gain_def i_gain_def d_gain_def)
qed

section \<open>Binary text\<close>

lemma bin_rev_small: "n < 2 \<Longrightarrow> bin_rev n = [digit_char n]"
  by (subst bin_rev.simps) simp

lemma bin_rev_step: "\<not> n < 2 \<Longrightarrow> bin_rev n = digit_char (n mod 2) # bin_rev (n div 2)"
  by (subst bin_rev.simps) simp

lemma digit_char_one: "d < 2 \<Longrightarrow> (digit_char d = CHR ''1'') = (d = 1)"
  by (cases d) (simp_all add: digit_char_def)

lemma bin_rev_nth:
  "i < length (bin_rev n) \<Longrightarrow> (bin_rev n ! i = CHR ''1'') = odd (n div 2 ^ i)"
proof (induction n arbitrary: i rule: bin_rev.induct)
  case (1 n)
  show ?case
  proof (cases "n < 2")
    case True
    with "1.prems" have "i = 0" by (simp add: bin_rev_small)
    moreover from True have "n = 0 \<or> n = 1" by arith
    ultimately show ?thesis
      by (auto simp: bin_rev_small digit_char_def)
  next
    case False
    show ?thesis
    proof (cases i)
      case 0
      have "n mod 2 < 2" by simp
      then have "(digit_char (n mod 2) = CHR ''1'') = (n mod 2 = 1)" by (rule digit_char_one)
      with False 0 show ?thesis
        by (simp add: bin_rev_step odd_iff_mod_2_eq_one)
    next
      case (Suc j)
      with False "1.prems" have "j < length (bin_rev (n div 2))"
        by (simp add: bin_rev_step)
      with False have "(bin_rev (n div 2) ! j = CHR ''1'') = odd (n div 2 div 2 ^ j)"
        by (intro "1.IH") simp_all
      with False Suc show ?thesis
        by (simp add: bin_rev_step div_mult2_eq)
    qed
  qed
qed

lemma bin_rev_bound: "n < 2 ^ length (bin_rev n)"
proof (induction n rule: bin_rev.induct)
  case (1 n)
  show ?case
  proof (cases "n < 2")
    case True
    then show ?thesis by (simp add: bin_rev_small)
  next
    case False
    with 1 have "n div 2 < 2 ^ length (bin_rev (n div 2))" by simp
    with False show ?thesis by (simp add: bin_rev_step)
  qed
qed

lemma bin_rev_length: "n < 2 ^ Suc k \<Longrightarrow> length (bin_rev n) \<le> Suc k"
proof (induction n arbitrary: k rule: bin_rev.induct)
  case (1 n)
  show ?case
  proof (cases "n < 2")
    case True
    then show ?thesis by (simp add: bin_rev_small)
  next
    case False
    with "1.prems" obtain j where k: "k = Suc j" by (cases k) auto
    with "1.prems" have "n div 2 < 2 ^ Suc j" by simp
    with False have "length (bin_rev (n div 2)) \<le> Suc j" by (intro "1.IH") simp_all
    with False k show ?thesis by (simp add: bin_rev_step)
  qed
qed

lemma flags_of_register:
  assumes "n < 65536"
  shows "map (\<lambda>c. c = CHR ''1'') (rev (format_016b (int n))) = map (\<lambda>i. odd (n div 2 ^ i)) [0..<16]"
proof -
  have "n < 2 ^ Suc 15" using assms by simp
  then have len: "length (bin_rev n) \<le> 16" using bin_rev_length [of n 15] by simp
  have fmt: "rev (format_016b (int n)) = bin_rev n @ replicate (16 - length (bin_rev n)) (CHR ''0'')"
    by (simp add: format_016b_def zero_pad_def)
  show ?thesis
  proof (rule nth_equalityI)
    show "length (map (\<lambda>c. c = CHR ''1'') (rev (format_016b (int n)))) =
          length (map (\<lambda>i. odd (n div 2 ^ i)) [0..<16])"
      using len by (simp add: fmt)
  next
    fix i assume "i < length (map (\<lambda>c. c = CHR ''1'') (rev (format_016b (int n))))"
    with len have i: "i < 16" by (simp add: fmt)
    show "map (\<lambda>c. c = CHR ''1'') (rev (format_016b (int n))) ! i =
          map (\<lambda>i. odd (n div 2 ^ i)) [0..<16] ! i"
    proof (cases "i < length (bin_rev n)")
      case True
      with i len show ?thesis
        by (simp add: fmt nth_append bin_rev_nth)
    next
      case False
      have "n < 2 ^ length (bin_rev n)" by (rule bin_rev_bound)
      also have "(2::nat) ^ length (bin_rev n) \<le> 2 ^ i"
        using False by (intro power_increasing) simp_all
      finally have "n div 2 ^ i = 0" by simp
      with False i len show ?thesis
        by (simp add: fmt nth_append)
    qed
  qed
qed

lemma flags_of_register_bit:
  assumes "0 \<le> err" and "err < 65536"
  shows "map (\<lambda>c. c = CHR ''1'') (rev (format_016b err)) = map (bit err) [0..<16]"
proof -
  have b: "bit err i = odd (nat err div 2 ^ i)" for i
  proof -
    have "bit err i = bit (nat err) i" using assms(1) by (simp add: bit_nat_iff)
    then show ?thesis by (simp add: bit_iff_odd)
  qed
  from assms have "nat err < 65536" by simp
  from flags_of_register [OF this] assms(1) show ?thesis
    by (simp add: b)
qed

lemma format_016b_length: "16 \<le> length (format_016b n)"
  by (cases "n < 0") (simp_all add: format_016b_def zero_pad_def)

lemma named_filter:
  "list_all (\<lambda>p. fst p < length flags) items \<Longrightarrow>
   named items flags acc = Inr (acc @ map snd (filter (\<lambda>p. flags ! fst p) items))"
  by (induction items arbitrary: acc) auto

lemma ERRORS_in_range: "16 \<le> length flags \<Longrightarrow> list_all (\<lambda>p. fst p < length flags) ERRORS"
  by (auto simp: ERRORS_def)

section \<open>The error register\<close>

lemma error_flags_line:
  assumes "0 \<le> max_log_length w"
    and "incoming w = (d, Some b) # rest"
    and "answer (timeout w) (d, b) = Some b"
    and "b \<noteq> unknown_command"
  shows "\<exists>w1. MTD415T_query ''E'' True w = Return (Some b) w1"
proof -
  from assms(3,4) have "\<not> (True \<and> retried (answer (timeout w) (d, b)))"
    by (simp add: retried_def)
  from query_answered [OF assms(1,2) this, of "''E''"] assms(3) show ?thesis
    by auto
qed

text \<open>
  C8. The device answers the query of the error register in time with a line that
  reads as an integer \<open>err\<close> of 16 bits. Then \<open>error_flags\<close> is the tuple of its sixteen
  bits, bit 0 first, and \<open>errors\<close> is the tuple of the names of the bits of \<open>_ERRORS\<close>
  that are set, in the order of the dictionary, which is by ascending bit: 0 to 6, 13
  and 14. The witness is the register value 5.
\<close>

theorem error_register_decoding:
  assumes "0 \<le> max_log_length w"
    and "incoming w = (d, Some b) # rest"
    and "answer (timeout w) (d, b) = Some b"
    and "b \<noteq> unknown_command"
    and "decode_ascii b = Inr s"
    and "py_int_text s = Inr err"
    and "0 \<le> err" and "err < 65536"
  shows "\<exists>w1. error_flags w = Return (PyFlags (map (bit err) [0..<16])) w1 \<and>
              errors w = Return (PyNames (map snd (filter (\<lambda>p. bit err (fst p)) ERRORS))) w1 \<and>
              map fst ERRORS = [0, 1, 2, 3, 4, 5, 6, 13, 14]"
proof -
  from error_flags_line [OF assms(1-4)] obtain w1
    where q: "MTD415T_query ''E'' True w = Return (Some b) w1" ..
  let ?flags = "map (bit err) [0..<16]"
  have fl: "map (\<lambda>c. c = CHR ''1'') (rev (format_016b err)) = ?flags"
    using assms(7,8) by (rule flags_of_register_bit)
  have ef: "error_flags w = Return (PyFlags ?flags) w1"
    using q assms(5,6) by (simp add: error_flags_def then_do_def or_raise_def fl)
  have "list_all (\<lambda>p. fst p < length ?flags) ERRORS"
    by (rule ERRORS_in_range) simp
  then have "named ERRORS ?flags [] = Inr ([] @ map snd (filter (\<lambda>p. ?flags ! fst p) ERRORS))"
    by (rule named_filter)
  moreover have "filter (\<lambda>p. ?flags ! fst p) ERRORS = filter (\<lambda>p. bit err (fst p)) ERRORS"
  proof (rule filter_cong [OF refl])
    fix p assume "p \<in> set ERRORS"
    then have "fst p < 16" by (auto simp: ERRORS_def)
    then show "?flags ! fst p = bit err (fst p)" by simp
  qed
  ultimately have nm: "named ERRORS ?flags [] = Inr (map snd (filter (\<lambda>p. bit err (fst p)) ERRORS))"
    by simp
  have "errors w = Return (PyNames (map snd (filter (\<lambda>p. bit err (fst p)) ERRORS))) w1"
    using ef nm by (simp add: errors_def then_do_def or_raise_def)
  with ef show ?thesis by (auto simp: ERRORS_def)
qed

lemma format_d_5: "format_d 5 = ''5''"
  by (simp add: format_d_numeral)

lemma bits_of_5:
  "map (bit (5::int)) [0..<16] =
     [True, False, True, False, False, False, False, False,
      False, False, False, False, False, False, False, False]"
  by code_simp

lemma names_of_5:
  "map snd (filter (\<lambda>p. bit (5::int) (fst p)) ERRORS) = [''not enabled'', ''thermal latch-up'']"
  by code_simp

theorem error_register_decoding_witness:
  "0 \<le> max_log_length (fresh (Some 1) 100 [(1 / 2, Some (''5'' @ nl))]) \<and>
   answer (timeout (fresh (Some 1) 100 [(1 / 2, Some (''5'' @ nl))])) (1 / 2, ''5'' @ nl)
     = Some (''5'' @ nl) \<and>
   ''5'' @ nl \<noteq> unknown_command \<and>
   decode_ascii (''5'' @ nl) = Inr (''5'' @ nl) \<and>
   py_int_text (''5'' @ nl) = Inr 5 \<and>
   (\<exists>w1. error_flags (fresh (Some 1) 100 [(1 / 2, Some (''5'' @ nl))]) =
            Return (PyFlags [True, False, True, False, False, False, False, False,
                             False, False, False, False, False, False, False, False]) w1 \<and>
         errors (fresh (Some 1) 100 [(1 / 2, Some (''5'' @ nl))]) =
            Return (PyNames [''not enabled'', ''thermal latch-up'']) w1)"
proof -
  let ?b = "''5'' @ nl"
  let ?w = "fresh (Some 1) 100 [(1 / 2, Some ?b)]"
  have h1: "0 \<le> max_log_length ?w" and h2: "incoming ?w = (1 / 2, Some ?b) # []"
    and h3: "answer (timeout ?w) (1 / 2, ?b) = Some ?b"
    by (simp_all add: answer_def)
  have h4: "?b \<noteq> unknown_command"
    using format_d_not_unknown [of 5] unfolding format_d_5 .
  have h5: "decode_ascii ?b = Inr ?b"
    using decode_ascii_format_d [of 5] unfolding format_d_5 .
  have h6: "py_int_text ?b = Inr 5"
    using py_int_text_format_d [of 5] unfolding format_d_5 .
  from error_register_decoding [OF h1 h2 h3 h4 h5 h6] h1 h3 h4 h5 h6
  show ?thesis
    by (simp only: bits_of_5 names_of_5) auto
qed

section \<open>Reading a setting back\<close>


lemma names_reading_flags:
  assumes "16 \<le> length fs"
  shows "\<exists>y. names_reading (PyFlags fs) w = Return y w"
proof -
  from assms have "list_all (\<lambda>p. fst p < length fs) ERRORS" by (rule ERRORS_in_range)
  then have "named ERRORS fs [] = Inr ([] @ map snd (filter (\<lambda>p. fs ! fst p) ERRORS))"
    by (rule named_filter)
  then show ?thesis by (simp add: names_reading_def or_raise_def)
qed

lemma flags_reading_decimal:
  "flags_reading (Some (format_d n @ nl)) w =
     Return (PyFlags (map (\<lambda>c. c = CHR ''1'') (rev (format_016b n)))) w"
  by (simp add: flags_reading_def or_raise_def decode_ascii_format_d py_int_text_format_d)

lemma reading_decimal: "\<exists>y. reading p (Some (format_d n @ nl)) w = Return y w"
proof (cases p)
  case Errors
  have "16 \<le> length (map (\<lambda>c. c = CHR ''1'') (rev (format_016b n)))"
    using format_016b_length [of n] by simp
  from names_reading_flags [OF this, of w] Errors show ?thesis
    by (simp add: flags_reading_decimal then_do_def)
qed (simp_all add: decoded_def flags_reading_decimal milli_def int_reading_def or_raise_def
       decode_ascii_format_d py_float_text_format_d py_int_text_format_d)




section \<open>Which getters retry\<close>

lemma float_of_unknown_command: "py_float_text unknown_command = Inl (ParseError unknown_command)"
  by code_simp

text \<open>
  C10, as the code has it. The link first gives an answer that is retried when \<open>retry\<close>
  is on (a timeout or the line "unknown command") and then a decimal integer. Every getter
  but \<open>tec_voltage\<close> sends its query twice and returns a value. \<open>tec_voltage\<close> sends its
  query once: a timeout gives the marker \<open><timeout>\<close>, and the line "unknown command"
  goes to \<open>float()\<close>, which raises.
\<close>

theorem getters_retry_except_tec_voltage:
  assumes "0 \<le> max_log_length w"
    and "incoming w = (d1, Some l1) # (d2, Some (format_d n @ nl)) # rest"
    and "retried (answer (timeout w) (d1, l1))"
    and "answer (timeout w) (d2, format_d n @ nl) = Some (format_d n @ nl)"
  shows "(p \<noteq> Tec_voltage \<longrightarrow>
            (\<exists>y w'. getattr p w = Return y w' \<and>
               map snd (wire w') = map snd (wire w) @
                 [wire_code p @ ''?'' @ nl, wire_code p @ ''?'' @ nl] \<and>
               incoming w' = rest)) \<and>
         (\<exists>w'. getattr Tec_voltage w =
                  (if answer (timeout w) (d1, l1) = None then Return (PyStr ''<timeout>'') w'
                   else Raise (ParseError unknown_command) w') \<and>
               map snd (wire w') = map snd (wire w) @ [''U?'' @ nl] \<and>
               incoming w' = (d2, Some (format_d n @ nl)) # rest)"
proof
  show "p \<noteq> Tec_voltage \<longrightarrow>
            (\<exists>y w'. getattr p w = Return y w' \<and>
               map snd (wire w') = map snd (wire w) @
                 [wire_code p @ ''?'' @ nl, wire_code p @ ''?'' @ nl] \<and>
               incoming w' = rest)"
  proof
    assume p: "p \<noteq> Tec_voltage"
    have good: "\<not> retried (answer (timeout w) (d2, format_d n @ nl))"
      using assms(4) format_d_not_unknown [of n] by (simp add: retried_def)
    from query_retried_once [OF assms(1,2,3) good, of "wire_code p"] assms(4) obtain w' where
      q: "MTD415T_query (wire_code p) True w = Return (Some (format_d n @ nl)) w'"
      and wr: "map snd (wire w') = map snd (wire w) @
                 [wire_code p @ ''?'' @ nl, wire_code p @ ''?'' @ nl]"
      and inc: "incoming w' = rest"
      by auto
    from reading_decimal [of p n w'] obtain y where
      "reading p (Some (format_d n @ nl)) w' = Return y w'" ..
    with q p have "getattr p w = Return y w'"
      by (simp add: getattr_query then_do_def)
    with wr inc show "\<exists>y w'. getattr p w = Return y w' \<and>
               map snd (wire w') = map snd (wire w) @
                 [wire_code p @ ''?'' @ nl, wire_code p @ ''?'' @ nl] \<and>
               incoming w' = rest"
      by blast
  qed
next
  have "\<not> (False \<and> retried (answer (timeout w) (d1, l1)))" by simp
  from query_answered [OF assms(1,2) this, of "''U''"] obtain w' where
    q: "MTD415T_query ''U'' False w = Return (answer (timeout w) (d1, l1)) w'"
    and wr: "map snd (wire w') = map snd (wire w) @ [''U'' @ ''?'' @ nl]"
    and inc: "incoming w' = (d2, Some (format_d n @ nl)) # rest"
    by auto
  have "getattr Tec_voltage w =
          (if answer (timeout w) (d1, l1) = None then Return (PyStr ''<timeout>'') w'
           else Raise (ParseError unknown_command) w')"
  proof (cases "answer (timeout w) (d1, l1)")
    case None
    with q show ?thesis
      by (simp add: tec_voltage_def then_do_def milli_def)
  next
    case (Some l)
    with assms(3) have "answer (timeout w) (d1, l1) = Some unknown_command"
      by (simp add: retried_def)
    with q show ?thesis
      by (simp add: tec_voltage_def then_do_def milli_def or_raise_def float_of_unknown_command)
  qed
  with wr inc show "\<exists>w'. getattr Tec_voltage w =
                  (if answer (timeout w) (d1, l1) = None then Return (PyStr ''<timeout>'') w'
                   else Raise (ParseError unknown_command) w') \<and>
               map snd (wire w') = map snd (wire w) @ [''U?'' @ nl] \<and>
               incoming w' = (d2, Some (format_d n @ nl)) # rest"
    by auto
qed

text \<open>
  C10 as claimed fails for a garbled read: on the answer "unknown command" \<open>tec_voltage\<close>
  returns no marker, it raises the ValueError of \<open>float()\<close>.
\<close>

theorem tec_voltage_garbled_counterexample:
  "returned (getattr Tec_voltage (fresh (Some 1) 100 [(1 / 2, Some unknown_command)])) = None \<and>
   raised (getattr Tec_voltage (fresh (Some 1) 100 [(1 / 2, Some unknown_command)]))
     = Some (ParseError unknown_command)"
  by code_simp

theorem getters_retry_except_tec_voltage_witness:
  "0 \<le> max_log_length
      (fresh (Some 1) 100 [(1 / 2, Some unknown_command), (1 / 2, Some (format_d 20000 @ nl))]) \<and>
   retried (answer (Some 1) (1 / 2, unknown_command)) \<and>
   answer (Some 1) (1 / 2, format_d 20000 @ nl) = Some (format_d 20000 @ nl) \<and>
   Temp \<noteq> Tec_voltage \<and>
   (\<exists>y w'. getattr Temp
        (fresh (Some 1) 100 [(1 / 2, Some unknown_command), (1 / 2, Some (format_d 20000 @ nl))])
          = Return y w' \<and>
      map snd (wire w') = [wire_code Temp @ ''?'' @ nl, wire_code Temp @ ''?'' @ nl] \<and>
      incoming w' = []) \<and>
   (\<exists>w'. getattr Tec_voltage
        (fresh (Some 1) 100 [(1 / 2, Some unknown_command), (1 / 2, Some (format_d 20000 @ nl))])
          = Raise (ParseError unknown_command) w' \<and>
      map snd (wire w') = [''U?'' @ nl] \<and>
      incoming w' = [(1 / 2, Some (format_d 20000 @ nl))])"
proof -
  let ?w = "fresh (Some 1) 100 [(1 / 2, Some unknown_command), (1 / 2, Some (format_d 20000 @ nl))]"
  have h1: "0 \<le> max_log_length ?w" by simp
  have h2: "incoming ?w = (1 / 2, Some unknown_command) # (1 / 2, Some (format_d 20000 @ nl)) # []"
    by simp
  have a1: "answer (Some 1) (1 / 2, unknown_command) = Some unknown_command"
    and a2: "answer (Some 1) (1 / 2, format_d 20000 @ nl) = Some (format_d 20000 @ nl)"
    by (simp_all add: answer_def)
  have h3: "retried (answer (timeout ?w) (1 / 2, unknown_command))"
    by (simp add: a1 retried_def)
  have h4: "answer (timeout ?w) (1 / 2, format_d 20000 @ nl) = Some (format_d 20000 @ nl)"
    by (simp add: a2)
  have t: "Temp \<noteq> Tec_voltage" by simp
  from getters_retry_except_tec_voltage [OF h1 h2 h3 h4, of Temp] t h1 h3 h4
  show ?thesis
    by (simp add: a1 a2)
qed

end
